theory Spec2Isabelle
  imports Main "HOL-Library.Sublist" "HOL-Library.Word"
begin

section \<open>Data model (src/types.ts)\<close>

text \<open>
  Strings are \<^typ>\<open>string\<close>; an optional field (\<open>gzip?\<close>, \<open>fallback?\<close>) or a
  nullable one (\<open>contentType: string | null\<close>) is an \<^typ>\<open>'a option\<close>. Sizes are
  non-negative integers, \<open>maxage\<close> is an integer. The field \<open>size\<close> is written
  \<open>size_b\<close> and the \<open>path\<close>/\<open>size\<close> of a \<open>CompressedInfo\<close> are written
  \<open>cpath\<close>/\<open>csize\<close>, since \<open>size\<close> is a constant of HOL and a field name is global.
\<close>

record CompressedInfo =
  cpath :: string
  csize :: nat

record AvailableFile =
  path :: string
  contentType :: "string option"
  size_b :: nat
  modifiedTime :: string
  etag :: string
  gzip :: "CompressedInfo option"
  br :: "CompressedInfo option"

text \<open>
  \<open>AvailableFiles\<close>: an object used as a dictionary from url to file. The map holds
  what was stored in the object, its own members; what reading the object at a key
  gives, own or inherited, is \<open>member_at\<close> below.
\<close>

type_synonym AvailableFiles = "string \<rightharpoonup> AvailableFile"

record StaticServerOptions =
  host :: string
  port :: nat
  index :: string
  fallback :: "string option"
  maxage :: int
  verbose :: bool

text \<open>
  What the middleware reads of a polka \<open>Request\<close>: its path and its headers (names in
  lower case, a missing header is \<open>undefined\<close>).
\<close>

record Request =
  rpath :: string
  rheaders :: "string \<rightharpoonup> string"

section \<open>Strings of JavaScript\<close>

text \<open>\<open>if (s)\<close> on a value of type \<open>string | undefined\<close>: neither undefined nor empty.\<close>

definition truthy :: "string option \<Rightarrow> bool" where
  "truthy s = (case s of None \<Rightarrow> False | Some v \<Rightarrow> v \<noteq> [])"

text \<open>\<open>s.includes(t)\<close>: \<open>t\<close> occurs in \<open>s\<close> as a contiguous substring.\<close>

definition includes_str :: "string \<Rightarrow> string \<Rightarrow> bool" where
  "includes_str s t = sublist t s"

text \<open>\<open>s.charAt(s.length - 1) === '/'\<close>; \<open>charAt(-1)\<close> of the empty string is \<open>''\<close>.\<close>

definition endsWithSlash :: "string \<Rightarrow> bool" where
  "endsWithSlash s = (s \<noteq> [] \<and> last s = CHR ''/'')"

section \<open>Numbers as strings\<close>

text \<open>
  \<open>n.toString(radix)\<close> of a non-negative integer below \<open>10^21\<close>: the digits, most
  significant first, no leading zero, letters in lower case. The source uses the radix
  16, and 10 in its template literals; a radix outside 2 to 16 is not modelled and gives
  the empty string.
\<close>

function nat_toString :: "nat \<Rightarrow> nat \<Rightarrow> string" where
  "nat_toString radix n =
     (if radix < 2 \<or> 16 < radix then []
      else if n < radix then [''0123456789abcdef'' ! n]
      else nat_toString radix (n div radix) @ [''0123456789abcdef'' ! (n mod radix)])"
  by pat_completeness auto
termination
  by (relation "measure (\<lambda>(radix, n). n)") auto

declare nat_toString.simps [simp del]

text \<open>
  A template literal \<open>`${n}`\<close> of an integer number: decimal, with a minus sign when
  negative (for integers of magnitude below \<open>10^21\<close>, which sizes, times in milliseconds
  and \<open>maxage\<close> are).
\<close>

definition number_toString :: "int \<Rightarrow> string" where
  "number_toString i =
     (if i < 0 then ''-'' @ nat_toString 10 (nat (- i)) else nat_toString 10 (nat i))"

section \<open>The hash of xxhashjs\<close>

text \<open>
  \<open>XXH.h32(text, seed)\<close> is the 32-bit xxHash (XXH32) of the UTF-8 bytes of \<open>text\<close>; a
  string is here the list of its bytes. All arithmetic is on 32-bit words and wraps.
  The input is consumed in stripes of 16 bytes into four lanes, then in words of 4
  bytes (little-endian), then byte by byte; a final mix follows.
\<close>

unbundle bit_operations_syntax

definition PRIME32_1 :: "32 word" where "PRIME32_1 = 2654435761"
definition PRIME32_2 :: "32 word" where "PRIME32_2 = 2246822519"
definition PRIME32_3 :: "32 word" where "PRIME32_3 = 3266489917"
definition PRIME32_4 :: "32 word" where "PRIME32_4 = 668265263"
definition PRIME32_5 :: "32 word" where "PRIME32_5 = 374761393"

definition rotl32 :: "32 word \<Rightarrow> nat \<Rightarrow> 32 word" where
  "rotl32 x r = word_rotl r x"

definition le32 :: "char \<Rightarrow> char \<Rightarrow> char \<Rightarrow> char \<Rightarrow> 32 word" where
  "le32 b0 b1 b2 b3 =
     of_nat (of_char b0) + 256 * (of_nat (of_char b1) +
       256 * (of_nat (of_char b2) + 256 * of_nat (of_char b3)))"

definition round32 :: "32 word \<Rightarrow> 32 word \<Rightarrow> 32 word" where
  "round32 v input = rotl32 (v + input * PRIME32_2) 13 * PRIME32_1"

fun stripes ::
  "32 word \<times> 32 word \<times> 32 word \<times> 32 word \<Rightarrow> string
     \<Rightarrow> (32 word \<times> 32 word \<times> 32 word \<times> 32 word) \<times> string" where
  "stripes (v1, v2, v3, v4)
     (a0 # a1 # a2 # a3 # b0 # b1 # b2 # b3 # c0 # c1 # c2 # c3 # d0 # d1 # d2 # d3 # rest) =
     stripes (round32 v1 (le32 a0 a1 a2 a3), round32 v2 (le32 b0 b1 b2 b3),
              round32 v3 (le32 c0 c1 c2 c3), round32 v4 (le32 d0 d1 d2 d3)) rest"
| "stripes v bs = (v, bs)"

fun words4 :: "32 word \<Rightarrow> string \<Rightarrow> 32 word \<times> string" where
  "words4 h (b0 # b1 # b2 # b3 # rest) =
     words4 (rotl32 (h + le32 b0 b1 b2 b3 * PRIME32_3) 17 * PRIME32_4) rest"
| "words4 h bs = (h, bs)"

fun bytes1 :: "32 word \<Rightarrow> string \<Rightarrow> 32 word" where
  "bytes1 h [] = h"
| "bytes1 h (b # bs) = bytes1 (rotl32 (h + of_nat (of_char b) * PRIME32_5) 11 * PRIME32_1) bs"

definition avalanche :: "32 word \<Rightarrow> 32 word" where
  "avalanche h =
     (let h1 = (h XOR drop_bit 15 h) * PRIME32_2;
          h2 = (h1 XOR drop_bit 13 h1) * PRIME32_3
      in h2 XOR drop_bit 16 h2)"

definition h32 :: "string \<Rightarrow> 32 word \<Rightarrow> 32 word" where
  "h32 input seed =
     (let (h, rest) =
            (if 16 \<le> length input then
               (case stripes (seed + PRIME32_1 + PRIME32_2, seed + PRIME32_2, seed,
                              seed - PRIME32_1) input of
                  ((v1, v2, v3, v4), rest) \<Rightarrow>
                    (rotl32 v1 1 + rotl32 v2 7 + rotl32 v3 12 + rotl32 v4 18, rest))
             else (seed + PRIME32_5, input));
          (h', rest') = words4 (h + of_nat (length input)) rest
      in avalanche (bytes1 h' rest'))"

section \<open>The file system at startup\<close>

text \<open>
  What \<open>fs-extra\<close> answers on the paths below the served directory while the index is
  built. A node is a path: whether \<open>access\<close> succeeds on it, what \<open>stat\<close> returns (an
  error code, or the \<open>Stats\<close> of which the build reads \<open>isDirectory()\<close>, \<open>size\<close>
  and \<open>mtime.getTime()\<close>, the time in milliseconds), and what \<open>readdir\<close> returns (an
  error code, or the names in the directory, each with the node of its path). An error
  is the code it carries (\<open>ENOENT\<close>, \<open>EACCES\<close>, ...). The field \<open>size\<close> of \<open>Stats\<close> is
  written \<open>ssize\<close>.
\<close>

record Stats =
  isDirectory :: bool
  ssize :: nat
  mtime :: int

datatype fsnode =
  Node (n_access: bool) (n_stat: "string + Stats")
       (n_readdir: "string + (string \<times> fsnode) list")

text \<open>
  The paths of one directory: \<open>dir_view dir entries\<close> finds the node of a path among the
  entries of \<open>dir\<close>. A path that no entry has does not exist.
\<close>

type_synonym fsview = "string \<Rightarrow> fsnode option"

text \<open>
  \<open>path.join(dir, name)\<close> on a POSIX system, for \<open>dir\<close> an absolute normalized path
  (what \<open>path.resolve\<close> returns, and \<open>path.join\<close> in its turn) and \<open>name\<close> the name
  of a directory entry: the separator is added unless \<open>dir\<close> ends with it, which only
  the root directory does.
\<close>

definition path_join :: "string \<Rightarrow> string \<Rightarrow> string" where
  "path_join dir name = (if endsWithSlash dir then dir @ name else dir @ ''/'' @ name)"

text \<open>
  \<open>path.extname(p)\<close> on a POSIX system looks at the last component of \<open>p\<close>, trailing
  slashes ignored: the extension goes from the last dot of the component to its end; it
  is empty when the component has no dot, when its last dot is its first character, and
  for the component \<open>..\<close>.
\<close>

definition basename_of :: "string \<Rightarrow> string" where
  "basename_of p =
     rev (takeWhile (\<lambda>c. c \<noteq> CHR ''/'') (dropWhile (\<lambda>c. c = CHR ''/'') (rev p)))"

definition extname :: "string \<Rightarrow> string" where
  "extname p =
     (let base = basename_of p;
          ext = rev (takeWhile (\<lambda>c. c \<noteq> CHR ''.'') (rev base))
      in if CHR ''.'' \<notin> set base \<or> length base = length ext + 1 \<or> base = ''..'' then []
         else CHR ''.'' # ext)"

definition dir_view :: "string \<Rightarrow> (string \<times> fsnode) list \<Rightarrow> fsview" where
  "dir_view dir entries p =
     map_option snd (find (\<lambda>(name, node). path_join dir name = p) entries)"

text \<open>\<open>fileExists(path)\<close>: whether \<open>fse.access(path)\<close> succeeds.\<close>

definition fileExists :: "fsview \<Rightarrow> string \<Rightarrow> bool" where
  "fileExists fs p = (case fs p of None \<Rightarrow> False | Some node \<Rightarrow> n_access node)"

text \<open>\<open>fse.stat(path)\<close>.\<close>

definition stat :: "fsview \<Rightarrow> string \<Rightarrow> string + Stats" where
  "stat fs p = (case fs p of None \<Rightarrow> Inl ''ENOENT'' | Some node \<Rightarrow> n_stat node)"

section \<open>Index builder\<close>

text \<open>
  What the build takes from outside the repository: \<open>mime.getType\<close> (a media type or
  \<open>null\<close>) and \<open>Date.prototype.toUTCString\<close>, on a time in milliseconds.
\<close>

record Library =
  mime_getType :: "string \<Rightarrow> string option"
  toUTCString :: "int \<Rightarrow> string"

text \<open>
  \<open>getFilePathInfo(filePath, stats)\<close>, with the paths of the directory of \<open>filePath\<close>,
  where its two siblings are looked for. The result is the file information, or the
  error of a failed \<open>stat\<close>.
\<close>

definition getFilePathInfo ::
  "Library \<Rightarrow> fsview \<Rightarrow> string \<Rightarrow> Stats \<Rightarrow> string + AvailableFile" where
  "getFilePathInfo lib fs filePath stats =
     (let mimeType = mime_getType lib filePath;
          gzipPath = filePath @ ''.gz'';
          brotliPath = filePath @ ''.br'';
          hasGzip = fileExists fs gzipPath;
          hasBrotli = fileExists fs brotliPath
      in
      case (if hasGzip
            then (case stat fs gzipPath of
                    Inl e \<Rightarrow> Inl e
                  | Inr s \<Rightarrow> Inr (Some \<lparr>cpath = gzipPath, csize = ssize s\<rparr>))
            else Inr None) of
        Inl e \<Rightarrow> Inl e
      | Inr gzipInfo \<Rightarrow>
          (case (if hasBrotli
                 then (case stat fs brotliPath of
                         Inl e \<Rightarrow> Inl e
                       | Inr s \<Rightarrow> Inr (Some \<lparr>cpath = brotliPath, csize = ssize s\<rparr>))
                 else Inr None) of
             Inl e \<Rightarrow> Inl e
           | Inr brInfo \<Rightarrow>
               Inr \<lparr>path = filePath,
                    contentType = mimeType,
                    size_b = ssize stats,
                    modifiedTime = toUTCString lib (mtime stats),
                    etag = nat_toString 16 (unat (h32
                       (filePath @ ''-'' @ number_toString (int (ssize stats)) @ ''-'' @
                          number_toString (mtime stats)) 0xabcd)),
                    gzip = gzipInfo,
                    br = brInfo\<rparr>))"

text \<open>
  The build awaits three kinds of operations: the \<open>readdir\<close> of a directory, the
  \<open>stat\<close> of a path and \<open>getFilePathInfo\<close> on a path. They are started together for
  all the entries of a directory and settle in an order that the program does not
  control. A \<open>clock\<close> gives the time at which each of them settles; a rejection is the
  error of one that failed, with this time.
\<close>

datatype awaited = Readdir string | Stat string | FilePathInfo string

type_synonym clock = "awaited \<Rightarrow> nat"

type_synonym rejection = "nat \<times> string"

text \<open>
  \<open>Promise.all\<close> rejects with the first of its promises to reject, and drops the
  rejections that come after. Of two rejections this is the earlier one, and the one
  of the task that comes first in the listing when both come at the same time.
\<close>

definition earlier :: "rejection \<Rightarrow> rejection \<Rightarrow> rejection" where
  "earlier r r' = (if fst r' < fst r then r' else r)"

text \<open>
  \<open>fillStaticPaths(acc, dir, baseDir)\<close>, on the node of \<open>dir\<close>: the accumulator that the
  source fills in place is passed and returned. \<open>fillEntries\<close> is \<open>dirPaths.map(...)\<close>
  with the \<open>Promise.all\<close> that awaits it, on the entries that remain, the whole listing
  kept for the lookups of siblings; the \<open>stat\<close> of the path of an entry is that of its
  node. Every task is started and runs whether or not another one fails. A task that
  fails stores nothing, and the result is then the earliest rejection of all the tasks:
  the accumulator is never returned. When no task fails the result is the accumulator
  as the tasks have filled it, here one after the other in the order of the listing.
  The assignment \<open>acc[url] = filePathInfo\<close> stores a member, except under the url
  \<open>__proto__\<close>, where it would set the prototype of the object; that url has no slash
  and can only come from a file of this name in the root directory of the file system,
  served as such, a case that is not followed further.
\<close>

fun fillStaticPaths ::
  "clock \<Rightarrow> Library \<Rightarrow> AvailableFiles \<Rightarrow> string \<Rightarrow> string \<Rightarrow> fsnode
     \<Rightarrow> rejection + AvailableFiles"
and fillEntries ::
  "clock \<Rightarrow> Library \<Rightarrow> AvailableFiles \<Rightarrow> string \<Rightarrow> string \<Rightarrow> (string \<times> fsnode) list
     \<Rightarrow> (string \<times> fsnode) list \<Rightarrow> rejection + AvailableFiles"
where
  "fillStaticPaths clock lib acc dir baseDir (Node a s (Inl e)) = Inl (clock (Readdir dir), e)"
| "fillStaticPaths clock lib acc dir baseDir (Node a s (Inr dirPaths)) =
     fillEntries clock lib acc dir baseDir dirPaths dirPaths"
| "fillEntries clock lib acc dir baseDir dirPaths [] = Inr acc"
| "fillEntries clock lib acc dir baseDir dirPaths ((dirPath, node) # rest) =
     (let absPath = path_join dir dirPath in
      case (case n_stat node of
              Inl e \<Rightarrow> Inl (clock (Stat absPath), e)
            | Inr stats \<Rightarrow>
                if isDirectory stats then fillStaticPaths clock lib acc absPath baseDir node
                else if extname absPath \<in> {''.br'', ''.gz''} then Inr acc
                else (case getFilePathInfo lib (dir_view dir dirPaths) absPath stats of
                        Inl e \<Rightarrow> Inl (clock (FilePathInfo absPath), e)
                      | Inr filePathInfo \<Rightarrow>
                          Inr (acc(drop (length baseDir) absPath \<mapsto> filePathInfo)))) of
        Inr acc' \<Rightarrow> fillEntries clock lib acc' dir baseDir dirPaths rest
      | Inl r \<Rightarrow>
          (case fillEntries clock lib acc dir baseDir dirPaths rest of
             Inl r' \<Rightarrow> Inl (earlier r r')
           | Inr acc' \<Rightarrow> Inl r))"

text \<open>
  \<open>getStaticPaths(dir)\<close>, on the node of \<open>dir\<close>: the index, or the error that the
  promise of the build is rejected with.
\<close>

definition getStaticPaths :: "clock \<Rightarrow> Library \<Rightarrow> string \<Rightarrow> fsnode \<Rightarrow> string + AvailableFiles" where
  "getStaticPaths clock lib dir root =
     (case fillStaticPaths clock lib Map.empty dir dir root of
        Inl (t, e) \<Rightarrow> Inl e
      | Inr staticPaths \<Rightarrow> Inr staticPaths)"

section \<open>Path resolver\<close>

text \<open>
  \<open>staticPaths[key]\<close>. The index is a plain object (\<open>{}\<close>), so reading it at a key
  gives the file stored under the key or, when none is stored, the member of that name
  that every object inherits from \<open>Object.prototype\<close>: a function, or the prototype
  itself for \<open>__proto__\<close>. Such a member is truthy and is not a file. Any other key
  gives \<open>undefined\<close>.
\<close>

definition object_members :: "string list" where
  "object_members =
     [''constructor'', ''__defineGetter__'', ''__defineSetter__'', ''hasOwnProperty'',
      ''__lookupGetter__'', ''__lookupSetter__'', ''isPrototypeOf'',
      ''propertyIsEnumerable'', ''toString'', ''valueOf'', ''__proto__'',
      ''toLocaleString'']"

datatype found = Entry AvailableFile | Inherited string

definition member_at :: "AvailableFiles \<Rightarrow> string \<Rightarrow> found option" where
  "member_at staticPaths key =
     (case staticPaths key of
        Some file \<Rightarrow> Some (Entry file)
      | None \<Rightarrow> if key \<in> set object_members then Some (Inherited key) else None)"

text \<open>
  \<open>getFileToServe(staticPaths, indexPath, fallbackPath)(req)\<close>. What is found in the
  object is truthy; \<open>null\<close> is \<open>None\<close>.
\<close>

definition getFileToServe ::
  "AvailableFiles \<Rightarrow> string \<Rightarrow> string option \<Rightarrow> Request \<Rightarrow> found option" where
  "getFileToServe staticPaths indexPath fallbackPath req =
     (let reqPath = (if rpath req = ''/'' then ''/'' @ indexPath else rpath req) in
      case member_at staticPaths reqPath of
        Some file \<Rightarrow> Some file
      | None \<Rightarrow>
          (let indexReqPath =
                 (if endsWithSlash reqPath then reqPath @ indexPath
                  else reqPath @ ''/'' @ indexPath) in
           case member_at staticPaths indexReqPath of
             Some indexFile \<Rightarrow> Some indexFile
           | None \<Rightarrow>
               (if truthy fallbackPath then
                  (case member_at staticPaths (the fallbackPath) of
                     Some fallbackFile \<Rightarrow> Some fallbackFile
                   | None \<Rightarrow> None)
                else None)))"

section \<open>The response, as the calls made on it\<close>

text \<open>
  A header value is a string or a number. The headers object is a dictionary. What a
  handler does to the response is the list of its calls, in order:
  \<open>res.writeHead(status, headers)\<close>, \<open>res.logInfo = headers\<close>,
  \<open>createReadStream(path)...pipe(res)\<close> (the body bytes are those of the file at
  \<open>path\<close>; the pipe ends the response when the file is exhausted), \<open>res.end(body)\<close>,
  \<open>next()\<close> and \<open>process.stderr.write(text)\<close>. A list that ends with \<open>Raise e\<close> is
  that of a handler which ends by raising the error \<open>e\<close>, uncaught.
\<close>

datatype hval = Str string | Num nat

type_synonym headers = "string \<rightharpoonup> hval"

datatype event =
    WriteHead nat headers
  | SetLogInfo headers
  | PipeFile string
  | EndResponse "string option"
  | CallNext
  | WriteStderr string
  | Raise string

section \<open>Cache validator\<close>

definition getHeaders :: "AvailableFile \<Rightarrow> StaticServerOptions \<Rightarrow> headers" where
  "getHeaders file options =
     (let headers =
            [''last-modified'' \<mapsto> Str (modifiedTime file),
             ''etag'' \<mapsto> Str (etag file),
             ''cache-control'' \<mapsto>
                Str (''no-cache, must-revalidate, max-age='' @ number_toString (maxage options))] in
      if truthy (contentType file)
      then headers(''content-type'' \<mapsto> Str (the (contentType file)))
      else headers)"

definition sendNotModified :: "headers \<Rightarrow> event list" where
  "sendNotModified headers = [WriteHead 304 headers, SetLogInfo headers, EndResponse None]"

section \<open>Content negotiation and streaming\<close>

text \<open>
  \<open>sendFile(file, headers, req, res)\<close> returns a promise: the result is the calls made
  on the response and how the promise settles, \<open>None\<close> when it resolves (the pipe
  finished) and \<open>Some e\<close> when it is rejected with the error \<open>e\<close> of the read stream.
  \<open>streamError path\<close> is the error that reading the file at \<open>path\<close> raises at request
  time, if any.
\<close>

definition sendFile ::
  "(string \<Rightarrow> string option) \<Rightarrow> AvailableFile \<Rightarrow> headers \<Rightarrow> Request
     \<Rightarrow> event list \<times> string option" where
  "sendFile streamError file headers req =
     (let acceptEncoding = rheaders req ''accept-encoding'';
          identity =
            (let headers1 = headers(''content-length'' \<mapsto> Num (size_b file)) in
             ([WriteHead 200 headers1, SetLogInfo headers1, PipeFile (path file)],
              streamError (path file)))
      in
      if truthy acceptEncoding then
        (if includes_str (the acceptEncoding) ''br'' \<and> br file \<noteq> None then
           (let headers1 = headers(''content-encoding'' \<mapsto> Str ''br'');
                headers2 = headers1(''content-length'' \<mapsto> Num (csize (the (br file)))) in
            ([WriteHead 200 headers2, SetLogInfo headers2, PipeFile (cpath (the (br file)))],
             streamError (cpath (the (br file)))))
         else if includes_str (the acceptEncoding) ''gzip'' \<and> gzip file \<noteq> None then
           (let headers1 = headers(''content-encoding'' \<mapsto> Str ''gzip'');
                headers2 = headers1(''content-length'' \<mapsto> Num (csize (the (gzip file)))) in
            ([WriteHead 200 headers2, SetLogInfo headers2, PipeFile (cpath (the (gzip file)))],
             streamError (cpath (the (gzip file)))))
         else identity)
      else identity)"

section \<open>The middleware\<close>

text \<open>
  The text of the error that \<open>res.writeHead\<close> raises on headers in which the value of
  \<open>last-modified\<close> is \<open>undefined\<close>.
\<close>

definition invalid_header_value :: string where
  "invalid_header_value =
     ''TypeError [ERR_HTTP_INVALID_HEADER_VALUE]: Invalid value '' @ [CHR 0x22] @
     ''undefined'' @ [CHR 0x22] @ '' for header '' @ [CHR 0x22] @ ''last-modified'' @
     [CHR 0x22]"

text \<open>
  The handler \<open>serve(req, res, next)\<close> that \<open>staticServe\<close> returns, over the dictionary
  \<open>staticPaths\<close> built at startup. \<open>next\<close> tells whether a next handler was given.

  When what the resolver returns is an inherited member and not a file, it has none of
  the fields of a file: \<open>getHeaders\<close> builds headers in which the values of
  \<open>last-modified\<close> and \<open>etag\<close> are \<open>undefined\<close>, and \<open>res.writeHead\<close> raises on
  such headers, at the first of them. The comparison \<open>requestEtag === file.etag\<close>
  holds when the request has no If-None-Match header: \<open>sendNotModified\<close> then raises,
  and the handler with it. Otherwise \<open>sendFile\<close> raises inside its promise, which is
  rejected with the error: the handler writes it to stderr and answers 500.
\<close>

definition serve ::
  "AvailableFiles \<Rightarrow> StaticServerOptions \<Rightarrow> (string \<Rightarrow> string option) \<Rightarrow> Request \<Rightarrow> bool
     \<Rightarrow> event list" where
  "serve staticPaths options streamError req next =
     (case getFileToServe staticPaths (index options) (fallback options) req of
        Some (Entry file) \<Rightarrow>
          (let headers = getHeaders file options;
               requestEtag = rheaders req ''if-none-match'' in
           if requestEtag = Some (etag file) then sendNotModified headers
           else
             (case sendFile streamError file headers req of
                (events, None) \<Rightarrow> events
              | (events, Some e) \<Rightarrow>
                  events @ [WriteStderr (e @ [CHR 0x0A]), WriteHead 500 Map.empty,
                            EndResponse None]))
      | Some (Inherited name) \<Rightarrow>
          (let requestEtag = rheaders req ''if-none-match'' in
           if requestEtag = None then [Raise invalid_header_value]
           else [WriteStderr (invalid_header_value @ [CHR 0x0A]), WriteHead 500 Map.empty,
                 EndResponse None])
      | None \<Rightarrow>
          (if next then [CallNext]
           else [WriteHead 404 Map.empty, EndResponse (Some ''Not Found'')]))"

section \<open>The resolver and the negotiator as the specification words them\<close>

text \<open>
  The resolution order of the specification: the request path \<open>/\<close> is replaced by
  \<open>/\<close> followed by the index file name; the path is looked up; on a miss the index
  file name is appended after a single slash and looked up; on a further miss the
  fallback path, when there is one, is looked up.
\<close>

definition resolve_spec ::
  "string \<Rightarrow> AvailableFiles \<Rightarrow> string \<Rightarrow> string option \<Rightarrow> AvailableFile option" where
  "resolve_spec requestPath idx indexFileName fallbackPath =
     (let p = (if requestPath = ''/'' then ''/'' @ indexFileName else requestPath);
          asDirectory = (if suffix ''/'' p then p @ indexFileName else p @ ''/'' @ indexFileName)
      in
      if idx p \<noteq> None then idx p
      else if idx asDirectory \<noteq> None then idx asDirectory
      else (case fallbackPath of Some fb \<Rightarrow> idx fb | None \<Rightarrow> None))"

text \<open>
  The decision order of the specification, on an entry and the value of the
  Accept-Encoding header (\<open>None\<close> when the request has none).
\<close>

record Negotiated =
  variantPath :: string
  variantSize :: nat
  encodingLabel :: "string option"

definition contains_token :: "string option \<Rightarrow> string \<Rightarrow> bool" where
  "contains_token acceptEncoding token =
     (case acceptEncoding of None \<Rightarrow> False | Some v \<Rightarrow> sublist token v)"

definition negotiate_spec :: "AvailableFile \<Rightarrow> string option \<Rightarrow> Negotiated" where
  "negotiate_spec entry acceptEncoding =
     (if contains_token acceptEncoding ''br'' \<and> br entry \<noteq> None
      then \<lparr>variantPath = cpath (the (br entry)), variantSize = csize (the (br entry)),
             encodingLabel = Some ''br''\<rparr>
      else if contains_token acceptEncoding ''gzip'' \<and> gzip entry \<noteq> None
      then \<lparr>variantPath = cpath (the (gzip entry)), variantSize = csize (the (gzip entry)),
             encodingLabel = Some ''gzip''\<rparr>
      else \<lparr>variantPath = path entry, variantSize = size_b entry, encodingLabel = None\<rparr>)"

section \<open>What the walk of a directory meets\<close>

text \<open>
  The errors of the \<open>readdir\<close> and \<open>stat\<close> calls that fail in the walk of a directory:
  its listing, the \<open>stat\<close> of each entry, and the same below each entry that is a
  directory.
\<close>

fun walk_errors :: "fsnode \<Rightarrow> string list"
and entries_errors :: "(string \<times> fsnode) list \<Rightarrow> string list"
where
  "walk_errors (Node a s (Inl e)) = [e]"
| "walk_errors (Node a s (Inr dirPaths)) = entries_errors dirPaths"
| "entries_errors [] = []"
| "entries_errors ((name, node) # rest) =
     (case n_stat node of
        Inl e \<Rightarrow> [e]
      | Inr stats \<Rightarrow> if isDirectory stats then walk_errors node else []) @
     entries_errors rest"

text \<open>
  The operations that fail in the walk of the directory at the path \<open>dir\<close>, each with
  the time at which it fails: a \<open>readdir\<close>, the \<open>stat\<close> of an entry, or the \<open>stat\<close> of a
  compressed sibling inside \<open>getFilePathInfo\<close>, which fails as a whole with it.
\<close>

fun walk_failures :: "clock \<Rightarrow> Library \<Rightarrow> string \<Rightarrow> fsnode \<Rightarrow> rejection list"
and entries_failures ::
  "clock \<Rightarrow> Library \<Rightarrow> string \<Rightarrow> (string \<times> fsnode) list \<Rightarrow> (string \<times> fsnode) list
     \<Rightarrow> rejection list"
where
  "walk_failures clock lib dir (Node a s (Inl e)) = [(clock (Readdir dir), e)]"
| "walk_failures clock lib dir (Node a s (Inr dirPaths)) =
     entries_failures clock lib dir dirPaths dirPaths"
| "entries_failures clock lib dir dirPaths [] = []"
| "entries_failures clock lib dir dirPaths ((name, node) # rest) =
     (let absPath = path_join dir name in
      case n_stat node of
        Inl e \<Rightarrow> [(clock (Stat absPath), e)]
      | Inr stats \<Rightarrow>
          if isDirectory stats then walk_failures clock lib absPath node
          else if extname absPath \<in> {''.br'', ''.gz''} then []
          else (case getFilePathInfo lib (dir_view dir dirPaths) absPath stats of
                  Inl e \<Rightarrow> [(clock (FilePathInfo absPath), e)]
                | Inr filePathInfo \<Rightarrow> [])) @
     entries_failures clock lib dir dirPaths rest"

text \<open>
  The paths, relative to a directory, of the files below it (the entries that are not
  directories): each name on the way down after a slash.
\<close>

fun file_urls :: "fsnode \<Rightarrow> string list"
and entries_urls :: "(string \<times> fsnode) list \<Rightarrow> string list"
where
  "file_urls (Node a s (Inl e)) = []"
| "file_urls (Node a s (Inr dirPaths)) = entries_urls dirPaths"
| "entries_urls [] = []"
| "entries_urls ((name, node) # rest) =
     (case n_stat node of
        Inl e \<Rightarrow> []
      | Inr stats \<Rightarrow>
          if isDirectory stats then map (\<lambda>u. ''/'' @ name @ u) (file_urls node)
          else [''/'' @ name]) @
     entries_urls rest"

text \<open>
  The names that \<open>readdir\<close> returns are names of directory entries: not empty, without
  a slash, and neither \<open>.\<close> nor \<open>..\<close>.
\<close>

fun valid_names :: "fsnode \<Rightarrow> bool"
and valid_entries :: "(string \<times> fsnode) list \<Rightarrow> bool"
where
  "valid_names (Node a s (Inl e)) = True"
| "valid_names (Node a s (Inr dirPaths)) = valid_entries dirPaths"
| "valid_entries [] = True"
| "valid_entries ((name, node) # rest) =
     (name \<noteq> [] \<and> CHR ''/'' \<notin> set name \<and> name \<noteq> ''.'' \<and> name \<noteq> ''..'' \<and>
      valid_names node \<and> valid_entries rest)"


section \<open>A small site, for the examples\<close>

definition demo_file :: AvailableFile where
  "demo_file =
     \<lparr>path = ''/srv/www/app.js'', contentType = Some ''application/javascript'',
      size_b = 1000, modifiedTime = ''Wed, 21 Oct 2015 07:28:00 GMT'', etag = ''1a2b3c'',
      gzip = Some \<lparr>cpath = ''/srv/www/app.js.gz'', csize = 400\<rparr>,
      br = Some \<lparr>cpath = ''/srv/www/app.js.br'', csize = 300\<rparr>\<rparr>"

definition demo_index :: AvailableFile where
  "demo_index =
     \<lparr>path = ''/srv/www/docs/index.html'', contentType = Some ''text/html'',
      size_b = 20, modifiedTime = ''Wed, 21 Oct 2015 07:28:00 GMT'', etag = ''4d5e6f'',
      gzip = None, br = None\<rparr>"

definition demo_paths :: AvailableFiles where
  "demo_paths = [''/app.js'' \<mapsto> demo_file, ''/docs/index.html'' \<mapsto> demo_index]"

definition demo_options :: StaticServerOptions where
  "demo_options =
     \<lparr>host = ''localhost'', port = 3000, index = ''index.html'', fallback = None,
      maxage = 1209600, verbose = False\<rparr>"

definition demo_request :: "string \<Rightarrow> (string \<times> string) list \<Rightarrow> Request" where
  "demo_request p hs = \<lparr>rpath = p, rheaders = map_of hs\<rparr>"

text \<open>
  A directory to build the index from: a script with its two compressed siblings, a
  file named \<open>.gz\<close>, and a subdirectory. \<open>demo_lib\<close> stands for the libraries, with two
  media types and one date.
\<close>

definition demo_lib :: Library where
  "demo_lib =
     \<lparr>mime_getType = (\<lambda>p. if suffix ''.js'' p then Some ''application/javascript''
                            else if suffix ''.html'' p then Some ''text/html'' else None),
      toUTCString = (\<lambda>t. ''Wed, 21 Oct 2015 07:28:00 GMT'')\<rparr>"

definition demo_leaf :: "nat \<Rightarrow> fsnode" where
  "demo_leaf n =
     Node True (Inr \<lparr>isDirectory = False, ssize = n, mtime = 1445412480000\<rparr>) (Inl ''ENOTDIR'')"

definition demo_dir :: "(string \<times> fsnode) list \<Rightarrow> fsnode" where
  "demo_dir entries =
     Node True (Inr \<lparr>isDirectory = True, ssize = 4096, mtime = 1445412480000\<rparr>) (Inr entries)"

definition demo_tree :: fsnode where
  "demo_tree =
     demo_dir [(''app.js'', demo_leaf 1000), (''app.js.br'', demo_leaf 300),
               (''app.js.gz'', demo_leaf 400), (''.gz'', demo_leaf 7),
               (''docs'', demo_dir [(''index.html'', demo_leaf 20)])]"

text \<open>
  A directory with two links that cannot be followed, \<open>dangling\<close> listed before \<open>loop\<close>,
  and a clock on which their \<open>stat\<close> calls fail at the times \<open>t1\<close> and \<open>t2\<close>.
\<close>

definition demo_failing :: fsnode where
  "demo_failing =
     demo_dir [(''app.js'', demo_leaf 1000),
               (''dangling'', Node False (Inl ''ENOENT'') (Inl ''ENOENT'')),
               (''loop'', Node False (Inl ''ELOOP'') (Inl ''ELOOP''))]"

definition demo_clock :: "nat \<Rightarrow> nat \<Rightarrow> clock" where
  "demo_clock t1 t2 operation =
     (if operation = Stat ''/srv/www/dangling'' then t1
      else if operation = Stat ''/srv/www/loop'' then t2 else 0)"

section \<open>Numbers as strings: evaluation\<close>

lemma nat_toString_digit:
  "2 \<le> radix \<Longrightarrow> radix \<le> 16 \<Longrightarrow> n < radix \<Longrightarrow>
   nat_toString radix n = [''0123456789abcdef'' ! n]"
  by (subst nat_toString.simps) simp

lemma nat_toString_step:
  "2 \<le> radix \<Longrightarrow> radix \<le> 16 \<Longrightarrow> radix \<le> n \<Longrightarrow>
   nat_toString radix n =
     nat_toString radix (n div radix) @ [''0123456789abcdef'' ! (n mod radix)]"
  by (subst nat_toString.simps) simp

lemma number_toString_default: "number_toString 1209600 = ''1209600''"
  by (simp add: number_toString_def nat_toString_digit nat_toString_step)

section \<open>The hash on known inputs\<close>

text \<open>
  The values of XXH32 with seed 0 that the reference implementation gives on three
  inputs: the empty one, a short one, and one of 39 bytes, which goes through the
  stripes, the words and the bytes.
\<close>

lemma h32_empty: "h32 [] 0 = 0x02CC5D05"
  by code_simp

lemma h32_abc: "h32 ''abc'' 0 = 0x32D153FF"
  by code_simp

lemma h32_long: "h32 ''Nobody inspects the spammish repetition'' 0 = 0xE2293B2F"
  by code_simp

text \<open>The ETag of a file of 1000 bytes at \<open>/srv/www/app.js\<close>, last modified in 2015.\<close>

lemma h32_demo: "h32 ''/srv/www/app.js-1000-1445412480000'' 0xabcd = 0x222416B7"
  by code_simp

lemma etag_demo:
  "nat_toString 16 (unat (h32 ''/srv/www/app.js-1000-1445412480000'' 0xabcd)) = ''222416b7''"
  by (simp add: h32_demo nat_toString_digit nat_toString_step)

section \<open>The ETag\<close>

text \<open>
  Claim C4. The ETag that \<open>getFilePathInfo\<close> records is the hexadecimal text of the
  XXH32 hash, with the fixed seed \<open>0xabcd\<close>, of the path, the size and the modification
  time in milliseconds, joined by dashes. So two builds of an entry, with whatever
  libraries and whatever else on the file system, from the same path and from stats with
  the same size and the same modification time, record the same ETag: nothing else goes
  into it.
\<close>

theorem etag_deterministic:
  assumes "getFilePathInfo lib1 fs1 filePath stats1 = Inr file1"
    and "getFilePathInfo lib2 fs2 filePath stats2 = Inr file2"
    and "ssize stats1 = ssize stats2" and "mtime stats1 = mtime stats2"
  shows "etag file1 = etag file2 \<and>
         etag file1 = nat_toString 16 (unat (h32
            (filePath @ ''-'' @ number_toString (int (ssize stats1)) @ ''-'' @
               number_toString (mtime stats1)) 0xabcd))"
  using assms
  by (auto simp: getFilePathInfo_def Let_def split: if_splits sum.splits)

theorem etag_deterministic_witness:
  "\<exists>f1 f2.
     getFilePathInfo demo_lib
        (dir_view ''/srv/www'' [(''app.js'', demo_leaf 1000), (''app.js.gz'', demo_leaf 400)])
        ''/srv/www/app.js'' \<lparr>isDirectory = False, ssize = 1000, mtime = 1445412480000\<rparr>
       = Inr f1 \<and>
     getFilePathInfo \<lparr>mime_getType = (\<lambda>p. None), toUTCString = (\<lambda>t. ''later'')\<rparr>
        Map.empty
        ''/srv/www/app.js'' \<lparr>isDirectory = False, ssize = 1000, mtime = 1445412480000\<rparr>
       = Inr f2 \<and>
     gzip f1 \<noteq> gzip f2 \<and> contentType f1 \<noteq> contentType f2 \<and>
     modifiedTime f1 \<noteq> modifiedTime f2 \<and> etag f1 = etag f2 \<and> etag f1 = ''222416b7''"
proof -
  let ?st = "\<lparr>isDirectory = False, ssize = 1000, mtime = 1445412480000\<rparr>"
  let ?e = "nat_toString 16 (unat (h32 ''/srv/www/app.js-1000-1445412480000'' 0xabcd))"
  let ?f1 = "\<lparr>path = ''/srv/www/app.js'', contentType = Some ''application/javascript'',
      size_b = 1000, modifiedTime = ''Wed, 21 Oct 2015 07:28:00 GMT'', etag = ?e,
      gzip = Some \<lparr>cpath = ''/srv/www/app.js.gz'', csize = 400\<rparr>, br = None\<rparr>"
  let ?f2 = "\<lparr>path = ''/srv/www/app.js'', contentType = None,
      size_b = 1000, modifiedTime = ''later'', etag = ?e, gzip = None, br = None\<rparr>"
  have 1: "getFilePathInfo demo_lib
        (dir_view ''/srv/www'' [(''app.js'', demo_leaf 1000), (''app.js.gz'', demo_leaf 400)])
        ''/srv/www/app.js'' ?st = Inr ?f1"
    by (simp add: getFilePathInfo_def fileExists_def stat_def dir_view_def path_join_def
        endsWithSlash_def demo_leaf_def demo_lib_def Let_def suffix_to_prefix
        number_toString_def nat_toString_digit nat_toString_step)
  have 2: "getFilePathInfo \<lparr>mime_getType = (\<lambda>p. None), toUTCString = (\<lambda>t. ''later'')\<rparr>
        Map.empty ''/srv/www/app.js'' ?st = Inr ?f2"
    by (simp add: getFilePathInfo_def fileExists_def stat_def Let_def
        number_toString_def nat_toString_digit nat_toString_step)
  from etag_deterministic [OF 1 2] have "etag ?f1 = etag ?f2"
    by simp
  with 1 2 show ?thesis
    by (intro exI [of _ ?f1] exI [of _ ?f2]) (simp add: etag_demo)
qed

section \<open>A failure anywhere fails the build\<close>

lemma entries_errors_set:
  "set (entries_errors es) =
     (\<Union>(name, node) \<in> set es.
        (case n_stat node of Inl e \<Rightarrow> {e}
         | Inr stats \<Rightarrow> if isDirectory stats then set (walk_errors node) else {}))"
  by (induction es) (auto split: sum.splits if_splits)

lemma stat_error_listed:
  "(name, node) \<in> set es \<Longrightarrow> n_stat node = Inl e \<Longrightarrow> e \<in> set (entries_errors es)"
  by (force simp: entries_errors_set)

lemma walk_error_listed:
  "(name, node) \<in> set es \<Longrightarrow> n_stat node = Inr stats \<Longrightarrow> isDirectory stats \<Longrightarrow>
   e \<in> set (walk_errors node) \<Longrightarrow> e \<in> set (entries_errors es)"
  by (force simp: entries_errors_set)

lemma find_Some_mem: "find P xs = Some x \<Longrightarrow> x \<in> set xs \<and> P x"
  by (induction xs) (auto split: if_splits)

lemma dir_view_listed:
  "dir_view dir es p = Some node \<Longrightarrow> \<exists>name. (name, node) \<in> set es \<and> path_join dir name = p"
  by (auto simp: dir_view_def dest!: find_Some_mem)

lemma stat_view_error:
  "stat (dir_view dir es) p = Inl e \<Longrightarrow> fileExists (dir_view dir es) p \<Longrightarrow>
   e \<in> set (entries_errors es)"
  by (auto simp: stat_def fileExists_def split: option.splits
      dest!: dir_view_listed intro: stat_error_listed)

lemma getFilePathInfo_error:
  "getFilePathInfo lib (dir_view dir es) p stats = Inl e \<Longrightarrow> e \<in> set (entries_errors es)"
  by (auto simp: getFilePathInfo_def Let_def split: if_splits sum.splits
      intro: stat_view_error)

lemma fill_fulfilled:
  "fillStaticPaths clock lib acc dir baseDir node = Inr idx \<Longrightarrow>
     walk_failures clock lib dir node = []"
  "fillEntries clock lib acc dir baseDir dirPaths rest = Inr idx \<Longrightarrow>
     entries_failures clock lib dir dirPaths rest = []"
proof (induction clock lib acc dir baseDir node and clock lib acc dir baseDir dirPaths rest
    arbitrary: idx and idx rule: fillStaticPaths_fillEntries.induct)
  case (1 clock lib acc dir baseDir a s e)
  then show ?case by simp
next
  case (2 clock lib acc dir baseDir a s dirPaths)
  then show ?case by simp
next
  case (3 clock lib acc dir baseDir dirPaths)
  then show ?case by simp
next
  case (4 clock lib acc dir baseDir dirPaths dirPath node rest)
  define absPath where "absPath = path_join dir dirPath"
  define step where "step =
    (case n_stat node of
       Inl e \<Rightarrow> Inl (clock (Stat absPath), e)
     | Inr stats \<Rightarrow>
         if isDirectory stats then fillStaticPaths clock lib acc absPath baseDir node
         else if extname absPath \<in> {''.br'', ''.gz''} then Inr acc
         else (case getFilePathInfo lib (dir_view dir dirPaths) absPath stats of
                 Inl e \<Rightarrow> Inl (clock (FilePathInfo absPath), e)
               | Inr filePathInfo \<Rightarrow>
                   Inr (acc(drop (length baseDir) absPath \<mapsto> filePathInfo))))"
  have run: "fillEntries clock lib acc dir baseDir dirPaths ((dirPath, node) # rest) =
      (case step of
         Inr acc' \<Rightarrow> fillEntries clock lib acc' dir baseDir dirPaths rest
       | Inl r \<Rightarrow>
           (case fillEntries clock lib acc dir baseDir dirPaths rest of
              Inl r' \<Rightarrow> Inl (earlier r r')
            | Inr acc' \<Rightarrow> Inl r))"
    unfolding step_def absPath_def by (simp add: Let_def)
  define failed where "failed =
    (case n_stat node of
       Inl e \<Rightarrow> [(clock (Stat absPath), e)]
     | Inr stats \<Rightarrow>
         if isDirectory stats then walk_failures clock lib absPath node
         else if extname absPath \<in> {''.br'', ''.gz''} then []
         else (case getFilePathInfo lib (dir_view dir dirPaths) absPath stats of
                 Inl e \<Rightarrow> [(clock (FilePathInfo absPath), e)]
               | Inr filePathInfo \<Rightarrow> []))"
  have all: "entries_failures clock lib dir dirPaths ((dirPath, node) # rest) =
      failed @ entries_failures clock lib dir dirPaths rest"
    unfolding failed_def absPath_def by (simp add: Let_def)
  from "4.prems" run obtain acc' where
    t: "step = Inr acc'"
    and r: "fillEntries clock lib acc' dir baseDir dirPaths rest = Inr idx"
    by (auto split: sum.splits)
  from t obtain stats where st: "n_stat node = Inr stats"
    by (cases "n_stat node") (simp_all add: step_def)
  have here: "failed = []"
  proof (cases "isDirectory stats")
    case True
    with t st have "fillStaticPaths clock lib acc absPath baseDir node = Inr acc'"
      by (simp add: step_def)
    from "4.IH"(1) [OF absPath_def st True this] st True show ?thesis
      by (simp add: failed_def)
  next
    case False
    with t st show ?thesis
      by (auto simp: step_def failed_def split: if_splits sum.splits)
  qed
  from "4.IH"(3) [OF absPath_def t [unfolded step_def] r] here all show ?case
    by simp
qed

lemma earlier_cases:
  "earlier r r' = r \<and> fst r \<le> fst r' \<or> earlier r r' = r' \<and> fst r' < fst r"
  by (simp add: earlier_def)

lemma fill_rejected:
  "fillStaticPaths clock lib acc dir baseDir node = Inl r \<Longrightarrow>
     r \<in> set (walk_failures clock lib dir node) \<and>
     (\<forall>r' \<in> set (walk_failures clock lib dir node). fst r \<le> fst r')"
  "fillEntries clock lib acc dir baseDir dirPaths rest = Inl r \<Longrightarrow>
     r \<in> set (entries_failures clock lib dir dirPaths rest) \<and>
     (\<forall>r' \<in> set (entries_failures clock lib dir dirPaths rest). fst r \<le> fst r')"
proof (induction clock lib acc dir baseDir node and clock lib acc dir baseDir dirPaths rest
    arbitrary: r and r rule: fillStaticPaths_fillEntries.induct)
  case (1 clock lib acc dir baseDir a s e)
  then show ?case by auto
next
  case (2 clock lib acc dir baseDir a s dirPaths)
  then show ?case by simp
next
  case (3 clock lib acc dir baseDir dirPaths)
  then show ?case by simp
next
  case (4 clock lib acc dir baseDir dirPaths dirPath node rest)
  define absPath where "absPath = path_join dir dirPath"
  define step where "step =
    (case n_stat node of
       Inl e \<Rightarrow> Inl (clock (Stat absPath), e)
     | Inr stats \<Rightarrow>
         if isDirectory stats then fillStaticPaths clock lib acc absPath baseDir node
         else if extname absPath \<in> {''.br'', ''.gz''} then Inr acc
         else (case getFilePathInfo lib (dir_view dir dirPaths) absPath stats of
                 Inl e \<Rightarrow> Inl (clock (FilePathInfo absPath), e)
               | Inr filePathInfo \<Rightarrow>
                   Inr (acc(drop (length baseDir) absPath \<mapsto> filePathInfo))))"
  have run: "fillEntries clock lib acc dir baseDir dirPaths ((dirPath, node) # rest) =
      (case step of
         Inr acc' \<Rightarrow> fillEntries clock lib acc' dir baseDir dirPaths rest
       | Inl r \<Rightarrow>
           (case fillEntries clock lib acc dir baseDir dirPaths rest of
              Inl r' \<Rightarrow> Inl (earlier r r')
            | Inr acc' \<Rightarrow> Inl r))"
    unfolding step_def absPath_def by (simp add: Let_def)
  define failed where "failed =
    (case n_stat node of
       Inl e \<Rightarrow> [(clock (Stat absPath), e)]
     | Inr stats \<Rightarrow>
         if isDirectory stats then walk_failures clock lib absPath node
         else if extname absPath \<in> {''.br'', ''.gz''} then []
         else (case getFilePathInfo lib (dir_view dir dirPaths) absPath stats of
                 Inl e \<Rightarrow> [(clock (FilePathInfo absPath), e)]
               | Inr filePathInfo \<Rightarrow> []))"
  have all: "entries_failures clock lib dir dirPaths ((dirPath, node) # rest) =
      failed @ entries_failures clock lib dir dirPaths rest"
    unfolding failed_def absPath_def by (simp add: Let_def)
  show ?case
  proof (cases step)
    case (Inr acc')
    with run "4.prems" have later: "fillEntries clock lib acc' dir baseDir dirPaths rest = Inl r"
      by simp
    have "failed = []"
    proof (cases "n_stat node")
      case (Inl e)
      with Inr show ?thesis by (simp add: step_def)
    next
      case st: (Inr stats)
      show ?thesis
      proof (cases "isDirectory stats")
        case True
        with Inr st have "fillStaticPaths clock lib acc absPath baseDir node = Inr acc'"
          by (simp add: step_def)
        from fill_fulfilled(1) [OF this] st True show ?thesis
          by (simp add: failed_def)
      next
        case False
        with Inr st show ?thesis
          by (auto simp: step_def failed_def split: if_splits sum.splits)
      qed
    qed
    with "4.IH"(3) [OF absPath_def Inr [unfolded step_def] later] all show ?thesis
      by simp
  next
    case (Inl r0)
    have r0: "r0 \<in> set failed \<and> (\<forall>r' \<in> set failed. fst r0 \<le> fst r')"
    proof (cases "n_stat node")
      case (Inl e)
      with \<open>step = Inl r0\<close> show ?thesis by (auto simp: step_def failed_def)
    next
      case st: (Inr stats)
      show ?thesis
      proof (cases "isDirectory stats")
        case True
        with \<open>step = Inl r0\<close> st
        have "fillStaticPaths clock lib acc absPath baseDir node = Inl r0"
          by (simp add: step_def)
        from "4.IH"(1) [OF absPath_def st True this] st True show ?thesis
          by (simp add: failed_def)
      next
        case False
        with \<open>step = Inl r0\<close> st show ?thesis
          by (auto simp: step_def failed_def split: if_splits sum.splits)
      qed
    qed
    show ?thesis
    proof (cases "fillEntries clock lib acc dir baseDir dirPaths rest")
      case later: (Inl r1)
      from "4.IH"(2) [OF absPath_def Inl [unfolded step_def] later]
      have r1: "r1 \<in> set (entries_failures clock lib dir dirPaths rest)"
        and least: "\<forall>r' \<in> set (entries_failures clock lib dir dirPaths rest). fst r1 \<le> fst r'"
        by simp_all
      from run Inl later "4.prems" have r: "r = earlier r0 r1"
        by simp
      from earlier_cases [of r0 r1] show ?thesis
      proof
        assume "earlier r0 r1 = r0 \<and> fst r0 \<le> fst r1"
        with r r0 r1 least all show ?thesis by fastforce
      next
        assume "earlier r0 r1 = r1 \<and> fst r1 < fst r0"
        with r r0 r1 least all show ?thesis by fastforce
      qed
    next
      case later: (Inr acc')
      from fill_fulfilled(2) [OF later]
      have "entries_failures clock lib dir dirPaths rest = []" .
      moreover from run Inl later "4.prems" have "r = r0"
        by simp
      ultimately show ?thesis using r0 all by simp
    qed
  qed
qed

lemma failures_listed:
  "r \<in> set (walk_failures clock lib dir node) \<Longrightarrow> snd r \<in> set (walk_errors node)"
  "r \<in> set (entries_failures clock lib dir dirPaths rest) \<Longrightarrow> set rest \<subseteq> set dirPaths \<Longrightarrow>
     snd r \<in> set (entries_errors dirPaths)"
proof (induction clock lib dir node and clock lib dir dirPaths rest
    rule: walk_failures_entries_failures.induct)
  case (1 clock lib dir a s e)
  then show ?case by simp
next
  case (2 clock lib dir a s dirPaths)
  then show ?case by simp
next
  case (3 clock lib dir dirPaths)
  then show ?case by simp
next
  case (4 clock lib dir dirPaths name node rest)
  have mem: "(name, node) \<in> set dirPaths" and sub: "set rest \<subseteq> set dirPaths"
    using "4.prems"(2) by auto
  define absPath where "absPath = path_join dir name"
  define failed where "failed =
    (case n_stat node of
       Inl e \<Rightarrow> [(clock (Stat absPath), e)]
     | Inr stats \<Rightarrow>
         if isDirectory stats then walk_failures clock lib absPath node
         else if extname absPath \<in> {''.br'', ''.gz''} then []
         else (case getFilePathInfo lib (dir_view dir dirPaths) absPath stats of
                 Inl e \<Rightarrow> [(clock (FilePathInfo absPath), e)]
               | Inr filePathInfo \<Rightarrow> []))"
  have all: "entries_failures clock lib dir dirPaths ((name, node) # rest) =
      failed @ entries_failures clock lib dir dirPaths rest"
    unfolding failed_def absPath_def by (simp add: Let_def)
  from "4.prems"(1) all consider "r \<in> set failed"
    | "r \<in> set (entries_failures clock lib dir dirPaths rest)"
    by auto
  then show ?case
  proof cases
    case 1
    show ?thesis
    proof (cases "n_stat node")
      case (Inl e)
      with 1 have "snd r = e" by (auto simp: failed_def)
      with Inl mem show ?thesis by (auto intro: stat_error_listed)
    next
      case st: (Inr stats)
      show ?thesis
      proof (cases "isDirectory stats")
        case True
        with 1 st have "r \<in> set (walk_failures clock lib absPath node)"
          by (simp add: failed_def)
        from "4.IH"(1) [OF absPath_def st True this] mem st True show ?thesis
          by (auto intro: walk_error_listed)
      next
        case False
        with 1 st have "getFilePathInfo lib (dir_view dir dirPaths) absPath stats = Inl (snd r)"
          by (auto simp: failed_def split: if_splits sum.splits)
        then show ?thesis by (rule getFilePathInfo_error)
      qed
    qed
  next
    case 2
    from "4.IH"(2) [OF 2 sub] show ?thesis .
  qed
qed

lemma errors_fail:
  "walk_errors node \<noteq> [] \<Longrightarrow> walk_failures clock lib dir node \<noteq> []"
  "entries_errors rest \<noteq> [] \<Longrightarrow> entries_failures clock lib dir dirPaths rest \<noteq> []"
proof (induction clock lib dir node and clock lib dir dirPaths rest
    rule: walk_failures_entries_failures.induct)
  case (1 clock lib dir a s e)
  then show ?case by simp
next
  case (2 clock lib dir a s dirPaths)
  then show ?case by simp
next
  case (3 clock lib dir dirPaths)
  then show ?case by simp
next
  case (4 clock lib dir dirPaths name node rest)
  define absPath where "absPath = path_join dir name"
  show ?case
  proof (cases "n_stat node")
    case (Inl e)
    then show ?thesis by (simp add: Let_def)
  next
    case st: (Inr stats)
    show ?thesis
    proof (cases "isDirectory stats \<and> walk_errors node \<noteq> []")
      case True
      with "4.IH"(1) [OF absPath_def st] have "walk_failures clock lib absPath node \<noteq> []"
        by simp
      with st True show ?thesis
        unfolding absPath_def by (simp add: Let_def)
    next
      case False
      with "4.prems" st have "entries_errors rest \<noteq> []"
        by (auto split: if_splits)
      from "4.IH"(2) [OF this] show ?thesis
        by simp
    qed
  qed
qed

lemma getStaticPaths_index:
  "getStaticPaths clock lib dir root = Inr idx \<longleftrightarrow>
     fillStaticPaths clock lib Map.empty dir dir root = Inr idx"
  by (auto simp: getStaticPaths_def split: sum.splits prod.splits)

lemma getStaticPaths_error:
  "getStaticPaths clock lib dir root = Inl e \<longleftrightarrow>
     (\<exists>t. fillStaticPaths clock lib Map.empty dir dir root = Inl (t, e))"
  by (auto simp: getStaticPaths_def split: sum.splits prod.splits)

lemma clean_build:
  assumes "walk_errors root = []"
  shows "\<exists>idx. getStaticPaths clock lib dir root = Inr idx"
proof (cases "fillStaticPaths clock lib Map.empty dir dir root")
  case (Inl r)
  from fill_rejected(1) [OF Inl] have "r \<in> set (walk_failures clock lib dir root)"
    by simp
  from failures_listed(1) [OF this] assms show ?thesis
    by simp
next
  case (Inr idx)
  then show ?thesis by (simp add: getStaticPaths_index)
qed

lemma demo_tree_clean: "walk_errors demo_tree = []"
  by (simp add: demo_tree_def demo_dir_def demo_leaf_def)

lemma demo_failing_errors: "walk_errors demo_failing = [''ENOENT'', ''ELOOP'']"
  by (simp add: demo_failing_def demo_dir_def demo_leaf_def)

lemma demo_failing_failures:
  "walk_failures (demo_clock t1 t2) demo_lib ''/srv/www'' demo_failing =
     [(t1, ''ENOENT''), (t2, ''ELOOP'')]"
  by (simp add: demo_failing_def demo_dir_def demo_leaf_def demo_clock_def Let_def
      path_join_def endsWithSlash_def extname_def basename_of_def getFilePathInfo_def
      fileExists_def stat_def dir_view_def)

text \<open>
  Claim C5. When a \<open>readdir\<close> or a \<open>stat\<close> fails anywhere in the walk of the served
  directory, \<open>getStaticPaths\<close> returns no index at all but an error: the error of a
  failed operation that no other failed operation of the walk precedes in time, the
  first one met, and one of the errors of the walk. When none fails, it returns an
  index. This holds on every clock, that is however the operations are scheduled.
\<close>

theorem build_fails_with_first_error:
  "(walk_errors root = [] \<longrightarrow> (\<exists>idx. getStaticPaths clock lib dir root = Inr idx)) \<and>
   (walk_errors root \<noteq> [] \<longrightarrow>
      (\<exists>r \<in> set (walk_failures clock lib dir root).
         getStaticPaths clock lib dir root = Inl (snd r) \<and>
         snd r \<in> set (walk_errors root) \<and>
         (\<forall>r' \<in> set (walk_failures clock lib dir root). fst r \<le> fst r')))"
proof (intro conjI impI)
  assume "walk_errors root = []"
  then show "\<exists>idx. getStaticPaths clock lib dir root = Inr idx"
    by (rule clean_build)
next
  assume "walk_errors root \<noteq> []"
  then have "walk_failures clock lib dir root \<noteq> []"
    by (rule errors_fail(1))
  with fill_fulfilled(1) [of clock lib Map.empty dir dir root]
  obtain r where r: "fillStaticPaths clock lib Map.empty dir dir root = Inl r"
    by (cases "fillStaticPaths clock lib Map.empty dir dir root") auto
  from fill_rejected(1) [OF r]
  have mem: "r \<in> set (walk_failures clock lib dir root)"
    and least: "\<forall>r' \<in> set (walk_failures clock lib dir root). fst r \<le> fst r'"
    by simp_all
  from r have "getStaticPaths clock lib dir root = Inl (snd r)"
    by (cases r) (simp add: getStaticPaths_def)
  with mem least failures_listed(1) [OF mem]
  show "\<exists>r \<in> set (walk_failures clock lib dir root).
         getStaticPaths clock lib dir root = Inl (snd r) \<and>
         snd r \<in> set (walk_errors root) \<and>
         (\<forall>r' \<in> set (walk_failures clock lib dir root). fst r \<le> fst r')"
    by blast
qed

text \<open>
  The directory with the two links: listed second, \<open>loop\<close> is the error of the build
  when its \<open>stat\<close> fails first, and \<open>dangling\<close> when that one does.
\<close>

theorem build_fails_with_first_error_witness:
  "walk_errors demo_failing = [''ENOENT'', ''ELOOP''] \<and>
   walk_failures (demo_clock 2 1) demo_lib ''/srv/www'' demo_failing =
     [(2, ''ENOENT''), (1, ''ELOOP'')] \<and>
   getStaticPaths (demo_clock 2 1) demo_lib ''/srv/www'' demo_failing = Inl ''ELOOP'' \<and>
   getStaticPaths (demo_clock 1 2) demo_lib ''/srv/www'' demo_failing = Inl ''ENOENT'' \<and>
   walk_errors demo_tree = [] \<and>
   (\<exists>idx. getStaticPaths (demo_clock 2 1) demo_lib ''/srv/www'' demo_tree = Inr idx)"
proof -
  from build_fails_with_first_error [of demo_failing "demo_clock 2 1" demo_lib "''/srv/www''"]
  have 1: "getStaticPaths (demo_clock 2 1) demo_lib ''/srv/www'' demo_failing = Inl ''ELOOP''"
    by (simp add: demo_failing_errors demo_failing_failures)
  from build_fails_with_first_error [of demo_failing "demo_clock 1 2" demo_lib "''/srv/www''"]
  have 2: "getStaticPaths (demo_clock 1 2) demo_lib ''/srv/www'' demo_failing = Inl ''ENOENT''"
    by (simp add: demo_failing_errors demo_failing_failures)
  from build_fails_with_first_error [of demo_tree "demo_clock 2 1" demo_lib "''/srv/www''"]
  have 3: "\<exists>idx. getStaticPaths (demo_clock 2 1) demo_lib ''/srv/www'' demo_tree = Inr idx"
    by (simp add: demo_tree_clean)
  from 1 2 3 demo_failing_errors demo_failing_failures [of 2 1] demo_tree_clean
  show ?thesis
    by simp
qed

section \<open>The urls of the index\<close>

text \<open>The extensions that the documentation of \<open>path.extname\<close> lists.\<close>

lemma extname_documented:
  "extname ''index.html'' = ''.html''" "extname ''index.coffee.md'' = ''.md''"
  "extname ''index.'' = ''.''" "extname ''index'' = []"
  "extname ''.index'' = []" "extname ''.index.md'' = ''.md''"
  by (simp_all add: extname_def basename_of_def)

lemma takeWhile_all: "\<forall>x \<in> set xs. P x \<Longrightarrow> takeWhile P xs = xs"
  by (induction xs) auto

lemma takeWhile_stop: "\<forall>x \<in> set xs. P x \<Longrightarrow> \<not> P y \<Longrightarrow> takeWhile P (xs @ y # ys) = xs"
  by (induction xs) auto

lemma dropWhile_none: "xs \<noteq> [] \<Longrightarrow> \<not> P (hd xs) \<Longrightarrow> dropWhile P xs = xs"
  by (cases xs) auto

lemma no_slash_rev:
  "name \<noteq> [] \<Longrightarrow> CHR ''/'' \<notin> set name \<Longrightarrow>
   rev name \<noteq> [] \<and> hd (rev name) \<noteq> CHR ''/'' \<and> (\<forall>c \<in> set (rev name). c \<noteq> CHR ''/'')"
  by (cases "rev name") (auto simp: hd_rev dest: last_in_set)

lemma basename_of_name:
  assumes "CHR ''/'' \<notin> set name"
  shows "basename_of name = name"
proof (cases "name = []")
  case True
  then show ?thesis by (simp add: basename_of_def)
next
  case False
  with assms have n: "rev name \<noteq> []" "hd (rev name) \<noteq> CHR ''/''"
    "\<forall>c \<in> set (rev name). c \<noteq> CHR ''/''"
    using no_slash_rev by blast+
  have d: "dropWhile (\<lambda>c. c = CHR ''/'') (rev name) = rev name"
    using n(1,2) by (rule dropWhile_none)
  have t: "takeWhile (\<lambda>c. c \<noteq> CHR ''/'') (rev name) = rev name"
    using n(3) by (rule takeWhile_all)
  show ?thesis
    unfolding basename_of_def d t by simp
qed

lemma basename_of_join:
  assumes "name \<noteq> []" and "CHR ''/'' \<notin> set name"
  shows "basename_of (xs @ CHR ''/'' # name) = name"
proof -
  from assms have n: "rev name \<noteq> []" "hd (rev name) \<noteq> CHR ''/''"
    "\<forall>c \<in> set (rev name). c \<noteq> CHR ''/''"
    using no_slash_rev by blast+
  have r: "rev (xs @ CHR ''/'' # name) = rev name @ CHR ''/'' # rev xs"
    by simp
  have d: "dropWhile (\<lambda>c. c = CHR ''/'') (rev name @ CHR ''/'' # rev xs)
      = rev name @ CHR ''/'' # rev xs"
    using n(1,2) by (intro dropWhile_none) auto
  have t: "takeWhile (\<lambda>c. c \<noteq> CHR ''/'') (rev name @ CHR ''/'' # rev xs) = rev name"
    using n(3) by (rule takeWhile_stop) simp
  show ?thesis
    unfolding basename_of_def r d t by simp
qed

lemma extname_join:
  "name \<noteq> [] \<Longrightarrow> CHR ''/'' \<notin> set name \<Longrightarrow> extname (xs @ CHR ''/'' # name) = extname name"
  by (simp add: extname_def basename_of_join basename_of_name)

lemma path_join_plain:
  "\<not> endsWithSlash dir \<Longrightarrow> path_join dir name = dir @ CHR ''/'' # name"
  by (simp add: path_join_def)


lemma endsWithSlash_join:
  "name \<noteq> [] \<Longrightarrow> CHR ''/'' \<notin> set name \<Longrightarrow> \<not> endsWithSlash (xs @ CHR ''/'' # name)"
  using no_slash_rev [of name] by (auto simp: endsWithSlash_def hd_rev)

lemma fill_dom:
  "fillStaticPaths clock lib acc dir baseDir node = Inr idx \<Longrightarrow> dir = baseDir @ rel \<Longrightarrow>
   \<not> endsWithSlash dir \<Longrightarrow> valid_names node \<Longrightarrow>
   dom idx = dom acc \<union>
     {k \<in> (\<lambda>u. rel @ u) ` set (file_urls node). extname k \<noteq> ''.br'' \<and> extname k \<noteq> ''.gz''}"
  "fillEntries clock lib acc dir baseDir dirPaths rest = Inr idx \<Longrightarrow> dir = baseDir @ rel \<Longrightarrow>
   \<not> endsWithSlash dir \<Longrightarrow> valid_entries rest \<Longrightarrow>
   dom idx = dom acc \<union>
     {k \<in> (\<lambda>u. rel @ u) ` set (entries_urls rest). extname k \<noteq> ''.br'' \<and> extname k \<noteq> ''.gz''}"
proof (induction clock lib acc dir baseDir node and clock lib acc dir baseDir dirPaths rest
    arbitrary: idx rel and idx rel rule: fillStaticPaths_fillEntries.induct)
  case (1 clock lib acc dir baseDir a s e')
  then show ?case by simp
next
  case (2 clock lib acc dir baseDir a s dirPaths)
  then show ?case by simp
next
  case (3 clock lib acc dir baseDir dirPaths)
  then show ?case by simp
next
  case (4 clock lib acc dir baseDir dirPaths dirPath node rest)
  define absPath where "absPath = path_join dir dirPath"
  from "4.prems" have nm: "dirPath \<noteq> []" "CHR ''/'' \<notin> set dirPath"
    and vn: "valid_names node" and vr: "valid_entries rest"
    by auto
  from "4.prems" have ap: "absPath = baseDir @ rel @ CHR ''/'' # dirPath"
    by (simp add: absPath_def path_join_plain)
  define k where "k = rel @ CHR ''/'' # dirPath"
  have key: "drop (length baseDir) absPath = k"
    by (simp add: ap k_def)
  have ext: "extname absPath = extname k"
    using nm extname_join [of dirPath "baseDir @ rel"] extname_join [of dirPath rel]
    by (simp add: ap k_def)
  define step where "step =
    (case n_stat node of
       Inl e \<Rightarrow> Inl (clock (Stat absPath), e)
     | Inr stats \<Rightarrow>
         if isDirectory stats then fillStaticPaths clock lib acc absPath baseDir node
         else if extname absPath \<in> {''.br'', ''.gz''} then Inr acc
         else (case getFilePathInfo lib (dir_view dir dirPaths) absPath stats of
                 Inl e \<Rightarrow> Inl (clock (FilePathInfo absPath), e)
               | Inr filePathInfo \<Rightarrow>
                   Inr (acc(drop (length baseDir) absPath \<mapsto> filePathInfo))))"
  have run: "fillEntries clock lib acc dir baseDir dirPaths ((dirPath, node) # rest) =
      (case step of
         Inr acc' \<Rightarrow> fillEntries clock lib acc' dir baseDir dirPaths rest
       | Inl r \<Rightarrow>
           (case fillEntries clock lib acc dir baseDir dirPaths rest of
              Inl r' \<Rightarrow> Inl (earlier r r')
            | Inr acc' \<Rightarrow> Inl r))"
    unfolding step_def absPath_def by (simp add: Let_def)
  from "4.prems"(1) run obtain acc' where
    t: "step = Inr acc'"
    and rest: "fillEntries clock lib acc' dir baseDir dirPaths rest = Inr idx"
    by (auto split: sum.splits)
  from t obtain stats where st: "n_stat node = Inr stats"
    by (cases "n_stat node") (simp_all add: step_def)
  from "4.IH"(3) [OF absPath_def t [unfolded step_def] rest "4.prems"(2) "4.prems"(3) vr]
  have d2: "dom idx = dom acc' \<union>
     {k \<in> (\<lambda>u. rel @ u) ` set (entries_urls rest). extname k \<noteq> ''.br'' \<and> extname k \<noteq> ''.gz''}" .
  have d1: "dom acc' = dom acc \<union>
     {k \<in> (\<lambda>u. rel @ u) ` set (case n_stat node of Inl e \<Rightarrow> []
          | Inr stats \<Rightarrow> if isDirectory stats
               then map (\<lambda>u. ''/'' @ dirPath @ u) (file_urls node) else [''/'' @ dirPath]).
        extname k \<noteq> ''.br'' \<and> extname k \<noteq> ''.gz''}"
  proof (cases "isDirectory stats")
    case True
    with t st have f: "fillStaticPaths clock lib acc absPath baseDir node = Inr acc'"
      by (simp add: step_def)
    have a1: "absPath = baseDir @ (rel @ CHR ''/'' # dirPath)"
      by (simp add: ap)
    have a2: "\<not> endsWithSlash absPath"
      using nm endsWithSlash_join [of dirPath "baseDir @ rel"] by (simp add: ap)
    from "4.IH"(1) [OF absPath_def st True f a1 a2 vn] st True
    show ?thesis by (auto simp: image_image)
  next
    case False
    show ?thesis
    proof (cases "extname absPath \<in> {''.br'', ''.gz''}")
      case True
      with t False st ext show ?thesis
        by (auto simp: step_def k_def)
    next
      case nc: False
      with t st False obtain info where "acc' = acc(k \<mapsto> info)"
        by (auto simp: step_def key split: sum.splits)
      with False st ext nc show ?thesis
        by (auto simp: k_def)
    qed
  qed
  from d1 d2 show ?case
    by auto
qed



lemma urls_slash:
  "u \<in> set (file_urls node) \<Longrightarrow> \<exists>t. u = CHR ''/'' # t"
  "u \<in> set (entries_urls es) \<Longrightarrow> \<exists>t. u = CHR ''/'' # t"
  by (induction node and es arbitrary: u and u rule: file_urls_entries_urls.induct)
     (auto split: sum.splits if_splits)




lemma getStaticPaths_dom:
  assumes "getStaticPaths clock lib dir root = Inr idx" and "valid_names root"
    and "\<not> endsWithSlash dir"
  shows "dom idx = {u \<in> set (file_urls root). extname u \<noteq> ''.br'' \<and> extname u \<noteq> ''.gz''}"
  using fill_dom(1) [of clock lib Map.empty dir dir root idx "[]"] assms
  by (simp add: getStaticPaths_index)










text \<open>
  When the served directory is the root directory, \<open>baseDir\<close> ends with the slash that
  \<open>substr(baseDir.length)\<close> removes, and the urls stored have no leading slash.
\<close>

lemma root_directory_keys:
  "getStaticPaths clock demo_lib ''/'' (demo_dir [(''a.txt'', demo_leaf 7)]) =
     Inr [''a.txt'' \<mapsto>
       \<lparr>path = ''/a.txt'', contentType = None, size_b = 7,
        modifiedTime = ''Wed, 21 Oct 2015 07:28:00 GMT'',
        etag = nat_toString 16 (unat (h32 ''/a.txt-7-1445412480000'' 0xabcd)),
        gzip = None, br = None\<rparr>]"
  by (simp add: getStaticPaths_def demo_dir_def demo_leaf_def Let_def path_join_def
      endsWithSlash_def extname_def basename_of_def getFilePathInfo_def fileExists_def
      stat_def dir_view_def demo_lib_def suffix_to_prefix number_toString_def
      nat_toString_digit nat_toString_step)

text \<open>The empty string is no url of an index that was built.\<close>

lemma built_index_no_empty_url:
  assumes "getStaticPaths clock lib dir root = Inr idx" and "valid_names root"
    and "\<not> endsWithSlash dir"
  shows "idx [] = None"
proof (rule ccontr)
  assume "idx [] \<noteq> None"
  then have "[] \<in> dom idx"
    by auto
  with getStaticPaths_dom [OF assms] have "[] \<in> set (file_urls root)"
    by simp
  with urls_slash(1) show False
    by blast
qed

section \<open>The path resolver and the resolution order\<close>

lemma endsWithSlash_suffix: "endsWithSlash s = suffix ''/'' s"
  by (cases s rule: rev_cases) (auto simp: endsWithSlash_def suffix_def)

lemma getFileToServe_rheaders:
  "getFileToServe sp i fb (req\<lparr>rheaders := hs\<rparr>) = getFileToServe sp i fb req"
  by (simp add: getFileToServe_def)

lemma demo_resolves:
  "getFileToServe demo_paths (index demo_options) (fallback demo_options)
     (demo_request ''/app.js'' hs) = Some (Entry demo_file)"
  by (simp add: getFileToServe_def member_at_def demo_paths_def demo_request_def)

lemma demo_etag: "etag demo_file = ''1a2b3c''"
  by (simp add: demo_file_def)

lemma object_members_no_slash: "m \<in> set object_members \<Longrightarrow> CHR ''/'' \<notin> set m"
  by (auto simp: object_members_def)

lemma member_at_slash:
  "CHR ''/'' \<in> set key \<Longrightarrow> member_at idx key = map_option Entry (idx key)"
  using object_members_no_slash [of key]
  by (auto simp: member_at_def split: option.splits)

lemma member_at_own:
  "key \<notin> set object_members \<Longrightarrow> member_at idx key = map_option Entry (idx key)"
  by (auto simp: member_at_def split: option.splits)

text \<open>
  When neither the request path nor the fallback path is the name of an inherited
  member, \<open>getFileToServe\<close> returns what the resolution order of the specification
  returns: the request path \<open>/\<close> is replaced by \<open>/\<close> and the index file name; the
  path so obtained is looked up; on a miss the index file name is appended to it, after
  one slash, and looked up; on a further miss the fallback path, when it is a non-empty
  string, is looked up; else there is no match. A request path begins with a slash, and
  so is no such name.
\<close>

lemma resolve_without_inherited:
  assumes "rpath req \<notin> set object_members"
    and "\<forall>fb. fallbackPath = Some fb \<longrightarrow> fb \<notin> set object_members"
  shows "getFileToServe idx indexFileName fallbackPath req =
     map_option Entry
       (resolve_spec (rpath req) idx indexFileName
          (if fallbackPath = Some [] then None else fallbackPath))"
proof -
  define p where "p = (if rpath req = ''/'' then ''/'' @ indexFileName else rpath req)"
  define d where "d = (if endsWithSlash p then p @ indexFileName else p @ ''/'' @ indexFileName)"
  have "p \<notin> set object_members"
    using assms(1) object_members_no_slash [of p] by (auto simp: p_def)
  then have 1: "member_at idx p = map_option Entry (idx p)"
    by (rule member_at_own)
  have "CHR ''/'' \<in> set d"
    by (auto simp: d_def endsWithSlash_def dest: last_in_set)
  then have 2: "member_at idx d = map_option Entry (idx d)"
    by (rule member_at_slash)
  have 3: "member_at idx fb = map_option Entry (idx fb)" if "fallbackPath = Some fb" for fb
    using assms(2) that by (simp add: member_at_own)
  show ?thesis
  proof (cases fallbackPath)
    case None
    with 1 2 show ?thesis
      unfolding getFileToServe_def resolve_spec_def Let_def p_def [symmetric]
        endsWithSlash_suffix [symmetric] d_def [symmetric]
      by (auto simp: truthy_def split: option.splits)
  next
    case (Some fb)
    with 1 2 3 [OF Some] show ?thesis
      unfolding getFileToServe_def resolve_spec_def Let_def p_def [symmetric]
        endsWithSlash_suffix [symmetric] d_def [symmetric]
      by (auto simp: truthy_def split: option.splits)
  qed
qed

text \<open>
  For the request path \<open>/\<close>, the index file name is appended to the path that
  replaced it: a file \<open>index.html\<close> in a directory \<open>index.html\<close> is found.
\<close>

lemma root_request_directory_step:
  "getFileToServe [''/index.html/index.html'' \<mapsto> f] ''index.html'' None
     (demo_request ''/'' []) = Some (Entry f)"
  by (simp add: getFileToServe_def member_at_def demo_request_def endsWithSlash_def
      object_members_def)

text \<open>
  Claim C1. The resolver is to return the entry of the index that the resolution order
  finds, and no match otherwise. It does not when the fallback path is the name of a
  member that objects inherit: the server started with the fallback \<open>constructor\<close>
  and asked for a path that has no file does not look the fallback up in the index, where
  it is absent, but finds the inherited member, and returns it as the file to serve. The
  resolution order gives no match there.
\<close>

theorem getFileToServe_inherited:
  "getFileToServe demo_paths ''index.html'' (Some ''constructor'')
     (demo_request ''/nothing'' []) = Some (Inherited ''constructor'') \<and>
   demo_paths ''constructor'' = None \<and>
   resolve_spec ''/nothing'' demo_paths ''index.html'' (Some ''constructor'') = None"
  by (simp add: getFileToServe_def member_at_def demo_paths_def demo_request_def
      endsWithSlash_def truthy_def object_members_def resolve_spec_def Let_def
      suffix_to_prefix)

text \<open>
  The middleware then takes the member for a file. Without a next handler a miss is
  answered 404; here the handler raises, or answers 500 when the request has an
  If-None-Match header.
\<close>

lemma serve_inherited:
  "serve demo_paths (demo_options\<lparr>fallback := Some ''constructor''\<rparr>) (\<lambda>p. None)
     (demo_request ''/nothing'' []) False = [Raise invalid_header_value]"
  "serve demo_paths (demo_options\<lparr>fallback := Some ''constructor''\<rparr>) (\<lambda>p. None)
     (demo_request ''/nothing'' [(''if-none-match'', ''1a2b3c'')]) False =
     [WriteStderr (invalid_header_value @ [CHR 0x0A]), WriteHead 500 Map.empty,
      EndResponse None]"
  by (simp_all add: serve_def getFileToServe_def member_at_def demo_paths_def
      demo_request_def demo_options_def endsWithSlash_def truthy_def object_members_def
      Let_def)

section \<open>Content negotiation follows the decision order\<close>

lemma sendFile_shape:
  "\<exists>h p r. sendFile se file headers req = ([WriteHead 200 h, SetLogInfo h, PipeFile p], r)"
  by (simp add: sendFile_def Let_def)

lemma sendFile_as_negotiated:
  "sendFile streamError file headers req =
     (let n = negotiate_spec file (rheaders req ''accept-encoding'');
          h = (case encodingLabel n of None \<Rightarrow> headers
               | Some l \<Rightarrow> headers(''content-encoding'' \<mapsto> Str l));
          h' = h(''content-length'' \<mapsto> Num (variantSize n))
      in ([WriteHead 200 h', SetLogInfo h', PipeFile (variantPath n)],
          streamError (variantPath n)))"
proof (cases "rheaders req ''accept-encoding''")
  case None
  then show ?thesis
    by (simp add: sendFile_def negotiate_spec_def Let_def truthy_def contains_token_def)
next
  case (Some v)
  show ?thesis
  proof (cases "v = []")
    case True
    with Some show ?thesis
      by (simp add: sendFile_def negotiate_spec_def Let_def truthy_def contains_token_def)
  next
    case ne: False
    show ?thesis
    proof (cases "sublist ''br'' v \<and> br file \<noteq> None")
      case True
      with Some ne show ?thesis
        by (auto simp: sendFile_def negotiate_spec_def Let_def truthy_def contains_token_def
            includes_str_def)
    next
      case nb: False
      show ?thesis
      proof (cases "sublist ''gzip'' v \<and> gzip file \<noteq> None")
        case True
        with Some ne nb show ?thesis
          by (auto simp: sendFile_def negotiate_spec_def Let_def truthy_def contains_token_def
              includes_str_def)
      next
        case False
        with Some ne nb show ?thesis
          by (auto simp: sendFile_def negotiate_spec_def Let_def truthy_def contains_token_def
              includes_str_def)
      qed
    qed
  qed
qed

text \<open>
  Claim C2. For every entry and every request, \<open>sendFile\<close> streams the variant that the
  decision order of the specification picks on the value of the Accept-Encoding header,
  and labels it so: the brotli variant exactly when the value contains \<open>br\<close> and the
  entry has one, else the gzip variant exactly when the value contains \<open>gzip\<close> and the
  entry has one, else the original file with no content-encoding added. Only the
  containment of the two substrings is looked at.
\<close>

theorem sendFile_negotiate:
  "fst (sendFile streamError file headers req) =
     (let n = negotiate_spec file (rheaders req ''accept-encoding'');
          h = (case encodingLabel n of None \<Rightarrow> headers
               | Some l \<Rightarrow> headers(''content-encoding'' \<mapsto> Str l))
               (''content-length'' \<mapsto> Num (variantSize n))
      in [WriteHead 200 h, SetLogInfo h, PipeFile (variantPath n)])"
  by (simp add: sendFile_as_negotiated Let_def)

theorem sendFile_negotiate_witness:
  "fst (sendFile (\<lambda>p. None) demo_file Map.empty
          (demo_request ''/app.js'' [(''accept-encoding'', ''gzip, deflate'')])) =
     [WriteHead 200 [''content-encoding'' \<mapsto> Str ''gzip'', ''content-length'' \<mapsto> Num 400],
      SetLogInfo [''content-encoding'' \<mapsto> Str ''gzip'', ''content-length'' \<mapsto> Num 400],
      PipeFile ''/srv/www/app.js.gz''] \<and>
   fst (sendFile (\<lambda>p. None) demo_file Map.empty
          (demo_request ''/app.js'' [(''accept-encoding'', ''identity'')])) =
     [WriteHead 200 [''content-length'' \<mapsto> Num 1000],
      SetLogInfo [''content-length'' \<mapsto> Num 1000],
      PipeFile ''/srv/www/app.js'']"
proof -
  have g: "negotiate_spec demo_file
      (rheaders (demo_request ''/app.js'' [(''accept-encoding'', ''gzip, deflate'')])
         ''accept-encoding'') =
      \<lparr>variantPath = ''/srv/www/app.js.gz'', variantSize = 400, encodingLabel = Some ''gzip''\<rparr>"
    by (simp add: negotiate_spec_def contains_token_def demo_file_def demo_request_def
        sublist_code)
  have i: "negotiate_spec demo_file
      (rheaders (demo_request ''/app.js'' [(''accept-encoding'', ''identity'')])
         ''accept-encoding'') =
      \<lparr>variantPath = ''/srv/www/app.js'', variantSize = 1000, encodingLabel = None\<rparr>"
    by (simp add: negotiate_spec_def contains_token_def demo_file_def demo_request_def
        sublist_code)
  from sendFile_negotiate [of "\<lambda>p. None" demo_file Map.empty
      "demo_request ''/app.js'' [(''accept-encoding'', ''gzip, deflate'')]"]
    sendFile_negotiate [of "\<lambda>p. None" demo_file Map.empty
      "demo_request ''/app.js'' [(''accept-encoding'', ''identity'')]"]
  show ?thesis
    by (simp add: g i Let_def)
qed

section \<open>The headers of the cache validator\<close>

lemma dom_getHeaders:
  "dom (getHeaders file options) =
     {''last-modified'', ''etag'', ''cache-control''} \<union>
     (if truthy (contentType file) then {''content-type''} else {})"
  by (auto simp: getHeaders_def Let_def)

text \<open>
  Claim C8. For every entry and options, the headers of \<open>getHeaders\<close> hold
  \<open>last-modified\<close> with the entry's modification time, \<open>etag\<close> with its ETag,
  \<open>cache-control\<close> with \<open>no-cache, must-revalidate, max-age=\<close> followed by the
  configured \<open>maxage\<close>, and \<open>content-type\<close> exactly when the entry's content type is
  known, that is a non-empty string (the type of a file is \<open>null\<close> or the name of a
  media type), with that type as value.
\<close>

theorem getHeaders_contents:
  "getHeaders file options ''last-modified'' = Some (Str (modifiedTime file)) \<and>
   getHeaders file options ''etag'' = Some (Str (etag file)) \<and>
   getHeaders file options ''cache-control'' =
     Some (Str (''no-cache, must-revalidate, max-age='' @ number_toString (maxage options))) \<and>
   getHeaders file options ''content-type'' =
     (case contentType file of None \<Rightarrow> None
      | Some ct \<Rightarrow> if ct = [] then None else Some (Str ct))"
  by (simp add: getHeaders_def truthy_def Let_def split: option.splits)

theorem getHeaders_contents_witness:
  "getHeaders demo_file demo_options ''last-modified'' =
     Some (Str ''Wed, 21 Oct 2015 07:28:00 GMT'') \<and>
   getHeaders demo_file demo_options ''etag'' = Some (Str ''1a2b3c'') \<and>
   getHeaders demo_file demo_options ''cache-control'' =
     Some (Str ''no-cache, must-revalidate, max-age=1209600'') \<and>
   getHeaders demo_file demo_options ''content-type'' = Some (Str ''application/javascript'') \<and>
   getHeaders (demo_file\<lparr>contentType := None\<rparr>) demo_options ''content-type'' = None"
  using getHeaders_contents [of demo_file demo_options]
    getHeaders_contents [of "demo_file\<lparr>contentType := None\<rparr>" demo_options]
  by (simp add: demo_file_def demo_options_def number_toString_default)

section \<open>The outcomes of a request\<close>

text \<open>
  Claim C9. When the resolver finds no file for the request: with a next handler, the
  middleware calls it and does nothing else; without one, it writes status 404 and ends
  the response with the body \<open>Not Found\<close>, and does nothing more.
\<close>

theorem serve_no_match:
  "getFileToServe staticPaths (index options) (fallback options) req = None \<Longrightarrow>
   serve staticPaths options streamError req next =
     (if next then [CallNext]
      else [WriteHead 404 Map.empty, EndResponse (Some ''Not Found'')])"
  by (simp add: serve_def)

theorem serve_no_match_witness:
  "getFileToServe demo_paths (index demo_options) (fallback demo_options)
      (demo_request ''/missing'' []) = None \<and>
   serve demo_paths demo_options (\<lambda>p. None) (demo_request ''/missing'' []) True = [CallNext] \<and>
   serve demo_paths demo_options (\<lambda>p. None) (demo_request ''/missing'' []) False =
     [WriteHead 404 Map.empty, EndResponse (Some ''Not Found'')]"
proof -
  have h: "getFileToServe demo_paths (index demo_options) (fallback demo_options)
      (demo_request ''/missing'' []) = None"
    by (simp add: getFileToServe_def member_at_def demo_paths_def demo_options_def
        demo_request_def endsWithSlash_def truthy_def object_members_def)
  show ?thesis
    using h serve_no_match [OF h, of "\<lambda>p. None" True]
      serve_no_match [OF h, of "\<lambda>p. None" False]
    by simp
qed

text \<open>
  Claim C3. For a request that resolves to an entry: when the value of its If-None-Match
  header is the entry's ETag, string for string, the middleware writes status 304 with
  the headers of \<open>getHeaders\<close> and ends the response with no body, whatever the
  Accept-Encoding header is; when the value differs or the header is absent, it goes on
  to stream: status 200, then the file.
\<close>

theorem serve_conditional:
  assumes "getFileToServe staticPaths (index options) (fallback options) req = Some (Entry file)"
  shows "if rheaders req ''if-none-match'' = Some (etag file)
         then (\<forall>ae. serve staticPaths options streamError
                       (req\<lparr>rheaders := (rheaders req)(''accept-encoding'' := ae)\<rparr>) next =
                     [WriteHead 304 (getHeaders file options),
                      SetLogInfo (getHeaders file options), EndResponse None])
         else (\<exists>h p rest. serve staticPaths options streamError req next =
                     WriteHead 200 h # SetLogInfo h # PipeFile p # rest)"
proof (cases "rheaders req ''if-none-match'' = Some (etag file)")
  case True
  with assms show ?thesis
    by (simp add: serve_def getFileToServe_rheaders sendNotModified_def Let_def)
next
  case False
  obtain h p r where "sendFile streamError file (getHeaders file options) req =
      ([WriteHead 200 h, SetLogInfo h, PipeFile p], r)"
    using sendFile_shape by blast
  with assms False show ?thesis
    by (cases r) (simp_all add: serve_def Let_def)
qed

theorem serve_conditional_witness:
  "getFileToServe demo_paths (index demo_options) (fallback demo_options)
     (demo_request ''/app.js'' [(''if-none-match'', ''1a2b3c'')]) = Some (Entry demo_file) \<and>
   serve demo_paths demo_options (\<lambda>p. None)
     ((demo_request ''/app.js'' [(''if-none-match'', ''1a2b3c'')])
        \<lparr>rheaders := (rheaders (demo_request ''/app.js'' [(''if-none-match'', ''1a2b3c'')]))
                        (''accept-encoding'' := Some ''br'')\<rparr>) True =
     [WriteHead 304 (getHeaders demo_file demo_options),
      SetLogInfo (getHeaders demo_file demo_options), EndResponse None] \<and>
   (\<exists>h p rest. serve demo_paths demo_options (\<lambda>p. None)
       (demo_request ''/app.js'' [(''if-none-match'', ''ffff'')]) True =
       WriteHead 200 h # SetLogInfo h # PipeFile p # rest)"
proof -
  have "\<forall>ae. serve demo_paths demo_options (\<lambda>p. None)
     ((demo_request ''/app.js'' [(''if-none-match'', ''1a2b3c'')])
        \<lparr>rheaders := (rheaders (demo_request ''/app.js'' [(''if-none-match'', ''1a2b3c'')]))
                        (''accept-encoding'' := ae)\<rparr>) True =
     [WriteHead 304 (getHeaders demo_file demo_options),
      SetLogInfo (getHeaders demo_file demo_options), EndResponse None]"
    using serve_conditional [OF demo_resolves, of "[(''if-none-match'', ''1a2b3c'')]"
        "\<lambda>p. None" True]
    by (simp add: demo_request_def demo_etag)
  moreover have "\<exists>h p rest. serve demo_paths demo_options (\<lambda>p. None)
       (demo_request ''/app.js'' [(''if-none-match'', ''ffff'')]) True =
       WriteHead 200 h # SetLogInfo h # PipeFile p # rest"
    using serve_conditional [OF demo_resolves, of "[(''if-none-match'', ''ffff'')]"
        "\<lambda>p. None" True]
    by (simp add: demo_request_def demo_etag)
  ultimately show ?thesis
    using demo_resolves by blast
qed

text \<open>
  Claim C7. For a request that resolves to an entry and is not answered 304, the first
  call on the response is \<open>writeHead\<close> with status 200 and headers in which
  \<open>content-length\<close> is the recorded size of the variant that is streamed,
  \<open>content-encoding\<close> is the label of that variant when it is a compressed one and
  absent otherwise, and every other header is as \<open>getHeaders\<close> built it; the file is
  piped after that call, and nothing follows but the handling of a read error. In
  particular, when the entry has a brotli variant and the Accept-Encoding value
  contains \<open>br\<close>, the headers carry \<open>content-encoding: br\<close> and the size of the brotli
  file as \<open>content-length\<close>.
\<close>

theorem serve_streaming:
  assumes "getFileToServe staticPaths (index options) (fallback options) req = Some (Entry file)"
    and "rheaders req ''if-none-match'' \<noteq> Some (etag file)"
  shows "let n = negotiate_spec file (rheaders req ''accept-encoding'') in
         \<exists>h. serve staticPaths options streamError req next =
               WriteHead 200 h # SetLogInfo h # PipeFile (variantPath n) #
                 (case streamError (variantPath n) of None \<Rightarrow> []
                  | Some e \<Rightarrow> [WriteStderr (e @ [CHR 0x0A]), WriteHead 500 Map.empty,
                               EndResponse None]) \<and>
             h ''content-length'' = Some (Num (variantSize n)) \<and>
             h ''content-encoding'' = map_option Str (encodingLabel n) \<and>
             (\<forall>k. k \<noteq> ''content-length'' \<and> k \<noteq> ''content-encoding''
                  \<longrightarrow> h k = getHeaders file options k) \<and>
             (\<forall>b v. br file = Some b \<and> rheaders req ''accept-encoding'' = Some v \<and>
                    sublist ''br'' v
                  \<longrightarrow> h ''content-encoding'' = Some (Str ''br'') \<and>
                      h ''content-length'' = Some (Num (csize b)))"
proof -
  define n where "n = negotiate_spec file (rheaders req ''accept-encoding'')"
  define h0 where "h0 = getHeaders file options"
  define h where "h = (case encodingLabel n of None \<Rightarrow> h0
       | Some l \<Rightarrow> h0(''content-encoding'' \<mapsto> Str l))(''content-length'' \<mapsto> Num (variantSize n))"
  have sf: "sendFile streamError file h0 req =
      ([WriteHead 200 h, SetLogInfo h, PipeFile (variantPath n)], streamError (variantPath n))"
    by (simp add: sendFile_as_negotiated Let_def n_def h_def)
  have run: "serve staticPaths options streamError req next =
      WriteHead 200 h # SetLogInfo h # PipeFile (variantPath n) #
        (case streamError (variantPath n) of None \<Rightarrow> []
         | Some e \<Rightarrow> [WriteStderr (e @ [CHR 0x0A]), WriteHead 500 Map.empty, EndResponse None])"
    using assms sf by (simp add: serve_def Let_def h0_def split: option.splits)
  have no_enc: "h0 ''content-encoding'' = None"
    by (simp add: h0_def getHeaders_def Let_def)
  have len: "h ''content-length'' = Some (Num (variantSize n))"
    by (simp add: h_def)
  have enc: "h ''content-encoding'' = map_option Str (encodingLabel n)"
    using no_enc by (simp add: h_def split: option.splits)
  have rest: "\<forall>k. k \<noteq> ''content-length'' \<and> k \<noteq> ''content-encoding'' \<longrightarrow> h k = h0 k"
    by (simp add: h_def split: option.splits)
  have brcase: "\<forall>b v. br file = Some b \<and> rheaders req ''accept-encoding'' = Some v \<and>
       sublist ''br'' v \<longrightarrow> encodingLabel n = Some ''br'' \<and> variantSize n = csize b"
    by (simp add: n_def negotiate_spec_def contains_token_def)
  from run len enc rest brcase show ?thesis
    unfolding Let_def n_def [symmetric] h0_def [symmetric]
    by (intro exI [of _ h]) simp
qed

theorem serve_streaming_witness:
  "getFileToServe demo_paths (index demo_options) (fallback demo_options)
     (demo_request ''/app.js'' [(''accept-encoding'', ''gzip, deflate, br'')]) =
     Some (Entry demo_file) \<and>
   rheaders (demo_request ''/app.js'' [(''accept-encoding'', ''gzip, deflate, br'')])
     ''if-none-match'' \<noteq> Some (etag demo_file) \<and>
   gzip demo_file \<noteq> None \<and>
   (\<exists>h. serve demo_paths demo_options (\<lambda>p. None)
          (demo_request ''/app.js'' [(''accept-encoding'', ''gzip, deflate, br'')]) True =
          [WriteHead 200 h, SetLogInfo h, PipeFile ''/srv/www/app.js.br''] \<and>
        h ''content-length'' = Some (Num 300) \<and>
        h ''content-encoding'' = Some (Str ''br''))"
proof -
  let ?req = "demo_request ''/app.js'' [(''accept-encoding'', ''gzip, deflate, br'')]"
  have r: "getFileToServe demo_paths (index demo_options) (fallback demo_options) ?req
      = Some (Entry demo_file)"
    by (rule demo_resolves)
  have m: "rheaders ?req ''if-none-match'' \<noteq> Some (etag demo_file)"
    by (simp add: demo_request_def)
  have n: "negotiate_spec demo_file (rheaders ?req ''accept-encoding'') =
      \<lparr>variantPath = ''/srv/www/app.js.br'', variantSize = 300, encodingLabel = Some ''br''\<rparr>"
    by (simp add: negotiate_spec_def contains_token_def demo_file_def demo_request_def
        sublist_code)
  have g: "gzip demo_file \<noteq> None"
    by (simp add: demo_file_def)
  from serve_streaming [OF r m, of "\<lambda>p. None" True]
  obtain h where "serve demo_paths demo_options (\<lambda>p. None) ?req True =
          [WriteHead 200 h, SetLogInfo h, PipeFile ''/srv/www/app.js.br''] \<and>
        h ''content-length'' = Some (Num 300) \<and>
        h ''content-encoding'' = Some (Str ''br'')"
    unfolding Let_def n by auto
  with r m g show ?thesis
    by blast
qed

text \<open>
  Claim C10. Whenever the middleware writes status 304, the headers it writes are those
  of \<open>getHeaders\<close> for the resolved entry and nothing else: \<open>last-modified\<close>, \<open>etag\<close>,
  \<open>cache-control\<close>, and \<open>content-type\<close> when the type is known. They hold neither
  \<open>content-length\<close> nor \<open>content-encoding\<close>, whatever variants the entry has and
  whatever the Accept-Encoding header is: the ETag is compared before \<open>sendFile\<close> looks
  at the encodings.
\<close>

theorem not_modified_headers:
  assumes "WriteHead 304 h \<in> set (serve staticPaths options streamError req next)"
  shows "''content-length'' \<notin> dom h \<and> ''content-encoding'' \<notin> dom h \<and>
     (\<exists>file. getFileToServe staticPaths (index options) (fallback options) req =
          Some (Entry file) \<and>
        rheaders req ''if-none-match'' = Some (etag file) \<and>
        h = getHeaders file options \<and>
        dom h = {''last-modified'', ''etag'', ''cache-control''} \<union>
                (if truthy (contentType file) then {''content-type''} else {}))"
proof (cases "getFileToServe staticPaths (index options) (fallback options) req")
  case None
  with assms show ?thesis
    by (simp add: serve_def split: if_splits)
next
  case (Some v)
  show ?thesis
  proof (cases v)
    case (Inherited m)
    with Some assms show ?thesis
      by (simp add: serve_def Let_def split: if_splits)
  next
    case (Entry f)
    show ?thesis
    proof (cases "rheaders req ''if-none-match'' = Some (etag f)")
      case True
      with Some Entry assms have "h = getHeaders f options"
        by (simp add: serve_def Let_def sendNotModified_def)
      with Some Entry True show ?thesis
        by (simp add: dom_getHeaders)
    next
      case False
      obtain h' p r where "sendFile streamError f (getHeaders f options) req =
          ([WriteHead 200 h', SetLogInfo h', PipeFile p], r)"
        using sendFile_shape by blast
      with Some Entry False assms show ?thesis
        by (cases r) (simp_all add: serve_def Let_def)
    qed
  qed
qed

theorem not_modified_headers_witness:
  "WriteHead 304 (getHeaders demo_file demo_options) \<in>
     set (serve demo_paths demo_options (\<lambda>p. None)
            (demo_request ''/app.js''
               [(''if-none-match'', ''1a2b3c''), (''accept-encoding'', ''gzip, br'')]) True) \<and>
   br demo_file \<noteq> None \<and> gzip demo_file \<noteq> None \<and>
   ''content-length'' \<notin> dom (getHeaders demo_file demo_options) \<and>
   ''content-encoding'' \<notin> dom (getHeaders demo_file demo_options)"
proof -
  let ?req = "demo_request ''/app.js''
               [(''if-none-match'', ''1a2b3c''), (''accept-encoding'', ''gzip, br'')]"
  have m: "rheaders ?req ''if-none-match'' = Some (etag demo_file)"
    by (simp add: demo_request_def demo_etag)
  have mem: "WriteHead 304 (getHeaders demo_file demo_options) \<in>
     set (serve demo_paths demo_options (\<lambda>p. None) ?req True)"
    using m by (simp add: serve_def demo_resolves Let_def sendNotModified_def)
  have v: "br demo_file \<noteq> None \<and> gzip demo_file \<noteq> None"
    by (simp add: demo_file_def)
  note c = not_modified_headers [OF mem]
  from conjunct1 [OF c] conjunct1 [OF conjunct2 [OF c]] mem v show ?thesis
    by simp
qed

end
